theory Spec2Isabelle
  imports Complex_Main "HOL-Library.Log_Nat"
begin

section \<open>Python and numpy values\<close>

text \<open>
  The exceptions the two simulation scripts can raise on the paths modelled here.
  \<^item> \<open>NameError\<close>: a global name that the module never binds is looked up;
  \<^item> \<open>ZeroDivisionError\<close>: \<^verbatim>\<open>//\<close> or \<^verbatim>\<open>/\<close> on Python
    numbers with a zero divisor;
  \<^item> \<open>ValueError\<close>: \<^verbatim>\<open>random.randint\<close> on an empty range, a negative
    array size, \<^verbatim>\<open>np.min\<close> of an empty array, a process pool without workers.
\<close>

datatype error = NameError | ZeroDivisionError | ValueError

subsection \<open>Rounding to double precision\<close>

text \<open>
  Python's \<^verbatim>\<open>float\<close> and numpy's \<^verbatim>\<open>float64\<close> are IEEE 754 binary64 numbers:
  every arithmetic operation returns the exact result rounded to 53 significant bits,
  to the nearest representable number and to the one with an even significand on a tie.

  \<open>rne m\<close> is the integer nearest to \<open>m\<close>, the even one on a tie;
  \<open>exponent x\<close> is the binary exponent of a positive \<open>x\<close>, that is the \<open>e\<close>
  with \<open>2^e \<le> x < 2^(e+1)\<close>; \<open>round64 x\<close> scales \<open>x\<close> to a significand of 53
  bits, rounds it and scales back. The range of the exponent is not bounded here:
  overflow to an infinity (beyond about \<open>1.8e308\<close>) and gradual underflow (below
  about \<open>2.2e-308\<close>) are not part of the model, and neither is the sign of zero.
\<close>

definition rne :: "real \<Rightarrow> int" where
  "rne m =
     (let f = \<lfloor>m\<rfloor>; d = m - of_int f in
      if d < 1 / 2 then f else if 1 / 2 < d then f + 1 else if even f then f else f + 1)"

definition exponent :: "real \<Rightarrow> int" where
  "exponent x = (if 1 \<le> x then bitlen \<lfloor>x\<rfloor> - 1 else - bitlen (\<lceil>1 / x\<rceil> - 1))"

definition round64 :: "real \<Rightarrow> real" where
  "round64 x =
     (if x = 0 then 0
      else
        let s = exponent \<bar>x\<bar> - 52 in
        if 0 \<le> s then of_int (rne (x / 2 ^ nat s)) * 2 ^ nat s
        else of_int (rne (x * 2 ^ nat (- s))) / 2 ^ nat (- s))"

subsection \<open>Double precision numbers\<close>

text \<open>
  A double precision number is a finite value or one of the three special values of
  IEEE 754. A finite value is a real number; the arithmetic operations round their
  results with \<open>round64\<close>, negation and absolute value are exact. The special values
  follow IEEE 754, which is what numpy computes (it warns, and returns the special
  value, where Python's own numbers raise).
\<close>

datatype float64 = Finite real | PosInf | NegInf | NaN

fun fadd :: "float64 \<Rightarrow> float64 \<Rightarrow> float64" where
  "fadd (Finite a) (Finite b) = Finite (round64 (a + b))"
| "fadd NaN _ = NaN"
| "fadd _ NaN = NaN"
| "fadd PosInf NegInf = NaN"
| "fadd NegInf PosInf = NaN"
| "fadd PosInf _ = PosInf"
| "fadd _ PosInf = PosInf"
| "fadd NegInf _ = NegInf"
| "fadd _ NegInf = NegInf"

fun fneg :: "float64 \<Rightarrow> float64" where
  "fneg (Finite a) = Finite (- a)"
| "fneg PosInf = NegInf"
| "fneg NegInf = PosInf"
| "fneg NaN = NaN"

definition fsub :: "float64 \<Rightarrow> float64 \<Rightarrow> float64" where
  "fsub x y = fadd x (fneg y)"

fun fabs :: "float64 \<Rightarrow> float64" where
  "fabs (Finite a) = Finite \<bar>a\<bar>"
| "fabs PosInf = PosInf"
| "fabs NegInf = PosInf"
| "fabs NaN = NaN"

fun fmul :: "float64 \<Rightarrow> float64 \<Rightarrow> float64" where
  "fmul (Finite a) (Finite b) = Finite (round64 (a * b))"
| "fmul NaN _ = NaN"
| "fmul _ NaN = NaN"
| "fmul (Finite a) PosInf = (if a = 0 then NaN else if 0 < a then PosInf else NegInf)"
| "fmul (Finite a) NegInf = (if a = 0 then NaN else if 0 < a then NegInf else PosInf)"
| "fmul PosInf (Finite b) = (if b = 0 then NaN else if 0 < b then PosInf else NegInf)"
| "fmul NegInf (Finite b) = (if b = 0 then NaN else if 0 < b then NegInf else PosInf)"
| "fmul PosInf PosInf = PosInf"
| "fmul PosInf NegInf = NegInf"
| "fmul NegInf PosInf = NegInf"
| "fmul NegInf NegInf = PosInf"

text \<open>
  Division of numpy scalars and arrays (\<^verbatim>\<open>np.float64.__truediv__\<close>): a zero divisor
  gives an infinity, or NaN for \<open>0 / 0\<close>, and never raises.
\<close>

fun fdiv :: "float64 \<Rightarrow> float64 \<Rightarrow> float64" where
  "fdiv (Finite a) (Finite b) =
     (if b = 0 then (if a = 0 then NaN else if 0 < a then PosInf else NegInf)
      else Finite (round64 (a / b)))"
| "fdiv NaN _ = NaN"
| "fdiv _ NaN = NaN"
| "fdiv (Finite a) PosInf = Finite 0"
| "fdiv (Finite a) NegInf = Finite 0"
| "fdiv PosInf (Finite b) = (if b < 0 then NegInf else PosInf)"
| "fdiv NegInf (Finite b) = (if b < 0 then PosInf else NegInf)"
| "fdiv PosInf PosInf = NaN"
| "fdiv PosInf NegInf = NaN"
| "fdiv NegInf PosInf = NaN"
| "fdiv NegInf NegInf = NaN"

text \<open>The comparisons \<^verbatim>\<open><\<close> and \<^verbatim>\<open><=\<close>: false whenever NaN takes part.\<close>

fun flt :: "float64 \<Rightarrow> float64 \<Rightarrow> bool" where
  "flt (Finite a) (Finite b) = (a < b)"
| "flt NaN _ = False"
| "flt _ NaN = False"
| "flt _ NegInf = False"
| "flt PosInf _ = False"
| "flt NegInf _ = True"
| "flt (Finite a) PosInf = True"

fun fle :: "float64 \<Rightarrow> float64 \<Rightarrow> bool" where
  "fle (Finite a) (Finite b) = (a \<le> b)"
| "fle NaN _ = False"
| "fle _ NaN = False"
| "fle NegInf _ = True"
| "fle _ PosInf = True"
| "fle PosInf _ = False"
| "fle (Finite a) NegInf = False"

fun fsqrt :: "float64 \<Rightarrow> float64" where
  "fsqrt (Finite a) = (if a < 0 then NaN else Finite (round64 (sqrt a)))"
| "fsqrt PosInf = PosInf"
| "fsqrt NegInf = NaN"
| "fsqrt NaN = NaN"

text \<open>
  \<^verbatim>\<open>x ** n\<close> for a literal exponent \<open>n\<close>, as a repeated multiplication (the
  power function of the C library, which numpy calls, may differ from it in the last
  place).
\<close>

primrec fpow :: "float64 \<Rightarrow> nat \<Rightarrow> float64" where
  "fpow x 0 = Finite 1"
| "fpow x (Suc n) = fmul x (fpow x n)"


text \<open>
  The reductions of numpy used by the scripts. The sum adds the elements one after
  another, rounding every partial sum (numpy adds arrays of eight and more elements
  in pairs of blocks; the order matters only where a partial sum is rounded).
  \<^verbatim>\<open>np.mean\<close> of an empty sequence is \<open>0 / 0\<close>, that is NaN (with a warning);
  \<^verbatim>\<open>np.var\<close> is the mean of the squared deviations from the mean and \<^verbatim>\<open>np.std\<close>
  its square root; \<^verbatim>\<open>np.min\<close> and \<^verbatim>\<open>np.max\<close> of an empty array raise
  \<open>ValueError\<close>, and NaN propagates through them.
\<close>

definition np_sum :: "float64 list \<Rightarrow> float64" where
  "np_sum xs = foldl fadd (Finite 0) xs"

definition np_mean :: "float64 list \<Rightarrow> float64" where
  "np_mean xs = fdiv (np_sum xs) (Finite (real (length xs)))"

definition np_var :: "float64 list \<Rightarrow> float64" where
  "np_var xs = (let m = np_mean xs in np_mean (map (\<lambda>x. fmul (fsub x m) (fsub x m)) xs))"

definition np_std :: "float64 list \<Rightarrow> float64" where
  "np_std xs = fsqrt (np_var xs)"

definition fminimum :: "float64 \<Rightarrow> float64 \<Rightarrow> float64" where
  "fminimum a b = (if a = NaN \<or> b = NaN then NaN else if flt b a then b else a)"

definition fmaximum :: "float64 \<Rightarrow> float64 \<Rightarrow> float64" where
  "fmaximum a b = (if a = NaN \<or> b = NaN then NaN else if flt a b then b else a)"

definition np_min :: "float64 list \<Rightarrow> error + float64" where
  "np_min xs = (case xs of [] \<Rightarrow> Inl ValueError | x # rest \<Rightarrow> Inr (foldl fminimum x rest))"

definition np_max :: "float64 list \<Rightarrow> error + float64" where
  "np_max xs = (case xs of [] \<Rightarrow> Inl ValueError | x # rest \<Rightarrow> Inr (foldl fmaximum x rest))"

text \<open>
  \<^verbatim>\<open>np.array(results)\<close> for a list of Python integers is an array of 64-bit
  integers when every element fits; the reductions read its elements as doubles, which
  rounds an integer of more than 53 bits. (Integers outside 64 bits give an array of
  Python objects: see \<open>calculate_statistics\<close>.)
\<close>

definition int64 :: "int \<Rightarrow> bool" where
  "int64 v \<longleftrightarrow> - (2 ^ 63) \<le> v \<and> v < 2 ^ 63"

definition np_array :: "int list \<Rightarrow> float64 list" where
  "np_array results = map (\<lambda>v. Finite (round64 (real_of_int v))) results"

text \<open>\<^verbatim>\<open>np.median\<close>: the mean of the middle element, or of the two middle elements.\<close>

definition np_median :: "int list \<Rightarrow> float64" where
  "np_median results =
     (let s = sort results; n = length s in
      if n = 0 then NaN
      else if odd n then np_mean (np_array [s ! (n div 2)])
      else np_mean (np_array [s ! (n div 2 - 1), s ! (n div 2)]))"

text \<open>
  Python's \<^verbatim>\<open>a // b\<close> on integers rounds towards minus infinity, as \<open>div\<close> on
  \<open>int\<close> does, and raises on a zero divisor. \<^verbatim>\<open>x or y\<close> evaluates \<open>y\<close> only when
  \<open>x\<close> is falsy: \<^verbatim>\<open>None\<close> or \<open>0\<close> for an optional integer.
\<close>

definition floordiv :: "int \<Rightarrow> int \<Rightarrow> error + int" where
  "floordiv a b = (if b = 0 then Inl ZeroDivisionError else Inr (a div b))"

definition py_or :: "int option \<Rightarrow> (error + int) \<Rightarrow> error + int" where
  "py_or x y = (case x of None \<Rightarrow> y | Some v \<Rightarrow> if v = 0 then y else Inr v)"

text \<open>
  Collecting the results of a sequence of calls (a list comprehension, the results of a
  process pool): the first call that raises ends the collection with its exception.
\<close>

fun collect :: "(error + 'a) list \<Rightarrow> error + 'a list" where
  "collect [] = Inr []"
| "collect (Inl e # rs) = Inl e"
| "collect (Inr v # rs) = (case collect rs of Inl e \<Rightarrow> Inl e | Inr vs \<Rightarrow> Inr (v # vs))"

section \<open>monte_carlo_simulation.py\<close>

subsection \<open>The module's names\<close>

text \<open>
  The names bound at module level: those of the import statements at the head of the
  file, and the classes and the function the module defines. The module uses
  \<^verbatim>\<open>random.seed\<close> and \<^verbatim>\<open>random.uniform\<close>, and has no \<^verbatim>\<open>import random\<close>
  (the sibling script random_simulation.py has one). Looking up a name that is not
  bound raises \<open>NameError\<close>.
\<close>

definition module_globals :: "string list" where
  "module_globals =
     [''np'', ''plt'', ''dataclass'', ''List'', ''Dict'', ''Tuple'', ''Optional'', ''Callable'',
      ''time'', ''ProcessPoolExecutor'', ''json'', ''ABC'', ''abstractmethod'',
      ''MonteCarloConfig'', ''MonteCarloSimulation'', ''PiEstimation'', ''MonteCarloAnalyzer'',
      ''main'']"

definition lookup_global :: "string \<Rightarrow> error + unit" where
  "lookup_global name = (if name \<in> set module_globals then Inr () else Inl NameError)"

subsection \<open>MonteCarloConfig\<close>

record MonteCarloConfig =
  num_samples :: int
  num_processes :: int
  seed :: "int option"
  batch_size :: "int option"
  use_numpy :: bool
  store_points :: bool
  convergence_threshold :: float64
  max_iterations :: int

text \<open>
  The constructor that \<^verbatim>\<open>@dataclass\<close> generates: it stores its arguments. The class
  has no \<^verbatim>\<open>__post_init__\<close>, so nothing is checked.
\<close>

definition MonteCarloConfig_init ::
  "int \<Rightarrow> int \<Rightarrow> int option \<Rightarrow> int option \<Rightarrow> bool \<Rightarrow> bool \<Rightarrow> float64 \<Rightarrow> int
     \<Rightarrow> error + MonteCarloConfig" where
  "MonteCarloConfig_init ns np sd bs un sp ct mi =
     Inr \<lparr>num_samples = ns, num_processes = np, seed = sd, batch_size = bs, use_numpy = un,
          store_points = sp, convergence_threshold = ct, max_iterations = mi\<rparr>"

subsection \<open>PiEstimation\<close>

record PiEstimation =
  config :: MonteCarloConfig
  points :: "(real \<times> real \<times> bool) list"

text \<open>
  \<^verbatim>\<open>__init__\<close>: with a seed, \<^verbatim>\<open>np.random.seed(config.seed)\<close> runs first (numpy
  raises \<open>ValueError\<close> for a seed outside \<open>0 .. 2^32 - 1\<close>) and then
  \<^verbatim>\<open>random.seed(config.seed)\<close> looks up the global \<^verbatim>\<open>random\<close>.
\<close>

definition np_random_seed :: "int \<Rightarrow> error + unit" where
  "np_random_seed s = (if 0 \<le> s \<and> s < 2 ^ 32 then Inr () else Inl ValueError)"

definition PiEstimation_init :: "MonteCarloConfig \<Rightarrow> error + PiEstimation" where
  "PiEstimation_init cfg =
     (case MonteCarloConfig.seed cfg of
        None \<Rightarrow> Inr \<lparr>config = cfg, points = []\<rparr>
      | Some s \<Rightarrow>
          (case lookup_global ''np'' of
             Inl e \<Rightarrow> Inl e
           | Inr _ \<Rightarrow>
               (case np_random_seed s of
                  Inl e \<Rightarrow> Inl e
                | Inr _ \<Rightarrow>
                    (case lookup_global ''random'' of
                       Inl e \<Rightarrow> Inl e
                     | Inr _ \<Rightarrow> Inr \<lparr>config = cfg, points = []\<rparr>))))"

text \<open>
  One trial. The random source is a tape: \<open>draws i\<close> is the \<open>i\<close>-th sample point
  \<open>(x, y)\<close> of this trial, a pair of doubles. A point is inside the circle when the
  rounded \<^verbatim>\<open>x**2 + y**2\<close> is at most \<open>1\<close>. The result is the updated object, the
  estimate and the count \<^verbatim>\<open>inside_circle\<close> of the auxiliary dictionary.

  \<^verbatim>\<open>_run_numpy_trial\<close>: \<^verbatim>\<open>np.random.uniform(-1, 1, n)\<close> raises \<open>ValueError\<close> for a
  negative \<open>n\<close>; the count is a numpy integer, so its division by \<open>n\<close> is numpy's.
\<close>

definition is_inside :: "real \<times> real \<Rightarrow> bool" where
  "is_inside p =
     fle (fadd (fmul (Finite (fst p)) (Finite (fst p))) (fmul (Finite (snd p)) (Finite (snd p))))
         (Finite 1)"

definition inside_count :: "(real \<times> real) list \<Rightarrow> nat" where
  "inside_count pts = length (filter is_inside pts)"

definition record_points :: "PiEstimation \<Rightarrow> (real \<times> real) list \<Rightarrow> PiEstimation" where
  "record_points self pts =
     (if store_points (PiEstimation.config self)
      then self\<lparr>points := points self @ map (\<lambda>p. (fst p, snd p, is_inside p)) pts\<rparr>
      else self)"

definition run_numpy_trial ::
  "PiEstimation \<Rightarrow> (nat \<Rightarrow> real \<times> real) \<Rightarrow> error + (PiEstimation \<times> float64 \<times> nat)" where
  "run_numpy_trial self draws =
     (let n = num_samples (PiEstimation.config self) in
      if n < 0 then Inl ValueError
      else
        let pts = map draws [0..<nat n];
            inside_circle = inside_count pts;
            pi_estimate =
              fmul (fdiv (Finite (real inside_circle)) (Finite (real_of_int n))) (Finite 4)
        in Inr (record_points self pts, pi_estimate, inside_circle))"

text \<open>
  \<^verbatim>\<open>_run_python_trial\<close>: the first pass through the loop looks up \<^verbatim>\<open>random\<close>; with
  no pass, the count \<open>0\<close> is a Python integer and its division by \<open>n\<close> is Python's.
\<close>

definition run_python_trial ::
  "PiEstimation \<Rightarrow> (nat \<Rightarrow> real \<times> real) \<Rightarrow> error + (PiEstimation \<times> float64 \<times> nat)" where
  "run_python_trial self draws =
     (let n = num_samples (PiEstimation.config self) in
      if 0 < n then
        (case lookup_global ''random'' of
           Inl e \<Rightarrow> Inl e
         | Inr _ \<Rightarrow>
             let pts = map draws [0..<nat n];
                 inside_circle = inside_count pts
             in Inr (record_points self pts,
                     fmul (fdiv (Finite (real inside_circle)) (Finite (real_of_int n)))
                          (Finite 4),
                     inside_circle))
      else if n = 0 then Inl ZeroDivisionError
      else Inr (self, Finite 0, 0))"

definition PiEstimation_run_trial ::
  "PiEstimation \<Rightarrow> (nat \<Rightarrow> real \<times> real) \<Rightarrow> error + (PiEstimation \<times> float64 \<times> nat)" where
  "PiEstimation_run_trial self draws =
     (if use_numpy (PiEstimation.config self) then run_numpy_trial self draws
      else run_python_trial self draws)"

subsection \<open>MonteCarloSimulation and MonteCarloAnalyzer\<close>

text \<open>
  The abstract base class: the analyzer only calls \<^verbatim>\<open>run_trial\<close> and
  \<^verbatim>\<open>get_exact_value\<close>. \<open>run_trial k\<close> is the outcome of the \<open>k\<close>-th call that a
  run makes (counting from \<open>0\<close>): the estimate, or the exception raised; the analyzer
  drops the auxiliary dictionary.
\<close>

record MonteCarloSimulation =
  run_trial :: "nat \<Rightarrow> error + float64"
  get_exact_value :: float64

text \<open>\<^verbatim>\<open>np.pi\<close> is a double: the one nearest to the number \<open>pi\<close>.\<close>

definition np_pi :: real where
  "np_pi = 884279719003555 / 281474976710656"

text \<open>
  A \<open>PiEstimation\<close> object as such a simulation, the \<open>k\<close>-th call reading the tape
  \<open>tapes k\<close>. The points a call stores do not enter any estimate.
\<close>

definition PiEstimation_simulation ::
  "PiEstimation \<Rightarrow> (nat \<Rightarrow> nat \<Rightarrow> real \<times> real) \<Rightarrow> MonteCarloSimulation" where
  "PiEstimation_simulation self tapes =
     \<lparr>run_trial =
        (\<lambda>k. case PiEstimation_run_trial self (tapes k) of
               Inl e \<Rightarrow> Inl e
             | Inr (self', pi_estimate, aux) \<Rightarrow> Inr pi_estimate),
      get_exact_value = Finite np_pi\<rparr>"

text \<open>The wall-clock field \<^verbatim>\<open>runtime\<close> is left out of the analyzer and of its report.\<close>

record MonteCarloAnalyzer =
  simulation :: MonteCarloSimulation
  config :: MonteCarloConfig
  results :: "float64 list"
  convergence_history :: "float64 list"

definition MonteCarloAnalyzer_init ::
  "MonteCarloSimulation \<Rightarrow> MonteCarloConfig \<Rightarrow> MonteCarloAnalyzer" where
  "MonteCarloAnalyzer_init sim cfg =
     \<lparr>simulation = sim, config = cfg, results = [], convergence_history = []\<rparr>"

record analysis =
  estimate :: float64
  exact_value :: float64
  absolute_error :: float64
  relative_error :: float64
  standard_deviation :: float64
  num_iterations :: nat

definition analyze_results :: "MonteCarloAnalyzer \<Rightarrow> analysis" where
  "analyze_results self =
     (let exact = get_exact_value (simulation self);
          final_estimate = np_mean (results self)
      in \<lparr>estimate = final_estimate,
          exact_value = exact,
          absolute_error = fabs (fsub final_estimate exact),
          relative_error = fabs (fdiv (fsub final_estimate exact) exact),
          standard_deviation = np_std (results self),
          num_iterations = length (results self)\<rparr>)"

text \<open>
  The loop of \<^verbatim>\<open>run_sequential\<close>: \<open>k\<close> passes are left, \<open>i\<close> is the loop variable
  and \<open>prev_estimate\<close> the running mean of the pass before (infinity at the start).
\<close>

fun sequential_loop ::
  "MonteCarloAnalyzer \<Rightarrow> nat \<Rightarrow> nat \<Rightarrow> float64 \<Rightarrow> error + MonteCarloAnalyzer" where
  "sequential_loop self 0 i prev_estimate = Inr self"
| "sequential_loop self (Suc k) i prev_estimate =
     (case run_trial (simulation self) i of
        Inl e \<Rightarrow> Inl e
      | Inr result \<Rightarrow>
          let rs = results self @ [result];
              estimate = np_mean rs;
              self' = self\<lparr>results := rs,
                           convergence_history := convergence_history self @ [estimate]\<rparr>
          in if flt (fabs (fsub estimate prev_estimate))
                    (convergence_threshold (MonteCarloAnalyzer.config self))
             then Inr self'
             else sequential_loop self' k (Suc i) estimate)"

definition run_sequential :: "MonteCarloAnalyzer \<Rightarrow> error + (MonteCarloAnalyzer \<times> analysis)" where
  "run_sequential self =
     (case sequential_loop self (nat (max_iterations (MonteCarloAnalyzer.config self))) 0 PosInf of
        Inl e \<Rightarrow> Inl e
      | Inr self' \<Rightarrow> Inr (self', analyze_results self'))"

text \<open>
  \<^verbatim>\<open>run_parallel\<close>: the batch size is computed and not used; a pool needs at least
  one worker (\<open>ValueError\<close> otherwise); one call of \<^verbatim>\<open>run_trial\<close> is submitted per
  process, and the results are read in the order of submission.
\<close>

definition run_parallel :: "MonteCarloAnalyzer \<Rightarrow> error + (MonteCarloAnalyzer \<times> analysis)" where
  "run_parallel self =
     (let cfg = MonteCarloAnalyzer.config self in
      case py_or (MonteCarloConfig.batch_size cfg)
             (floordiv (num_samples cfg) (MonteCarloConfig.num_processes cfg)) of
        Inl e \<Rightarrow> Inl e
      | Inr bs \<Rightarrow>
          if MonteCarloConfig.num_processes cfg \<le> 0 then Inl ValueError
          else
            (case collect (map (run_trial (simulation self))
                                [0..<nat (MonteCarloConfig.num_processes cfg)]) of
               Inl e \<Rightarrow> Inl e
             | Inr rs \<Rightarrow>
                 let self' = self\<lparr>results := rs\<rparr> in Inr (self', analyze_results self')))"

section \<open>random_simulation.py\<close>

record SimulationConfig =
  min_value :: int
  max_value :: int
  trials :: int
  seed :: "int option"
  parallel :: bool
  num_processes :: int
  batch_size :: "int option"

text \<open>The generated constructor, as for \<open>MonteCarloConfig\<close>: nothing is checked.\<close>

definition SimulationConfig_init ::
  "int \<Rightarrow> int \<Rightarrow> int \<Rightarrow> int option \<Rightarrow> bool \<Rightarrow> int \<Rightarrow> int option \<Rightarrow> error + SimulationConfig" where
  "SimulationConfig_init mn mx tr sd par np bs =
     Inr \<lparr>min_value = mn, max_value = mx, trials = tr, seed = sd, parallel = par,
          num_processes = np, batch_size = bs\<rparr>"

record statistics =
  mean :: float64
  median :: float64
  std_dev :: float64
  min_stat :: float64
  max_stat :: float64
  variance :: float64
  skewness :: float64
  kurtosis :: float64

text \<open>The wall-clock field \<^verbatim>\<open>runtime\<close> is left out of the results.\<close>

record SimulationResults =
  raw_data :: "int list"
  stats :: statistics
  config :: SimulationConfig

text \<open>
  \<^verbatim>\<open>random.randint(a, b)\<close> raises \<open>ValueError\<close> on an empty range and returns a
  value of \<open>[a, b]\<close> otherwise. The random source is a tape of raw draws: the draw
  \<open>r\<close> is mapped into the range, and every value of the range is the image of a draw.
\<close>

definition randint :: "int \<Rightarrow> int \<Rightarrow> nat \<Rightarrow> error + int" where
  "randint a b r = (if b < a then Inl ValueError else Inr (a + int r mod (b - a + 1)))"

text \<open>\<^verbatim>\<open>_generate_batch\<close>: \<^verbatim>\<open>range(size)\<close> is empty for a size below \<open>1\<close>.\<close>

definition generate_batch :: "SimulationConfig \<Rightarrow> int \<Rightarrow> (nat \<Rightarrow> nat) \<Rightarrow> error + int list" where
  "generate_batch cfg sz tape =
     collect (map (\<lambda>i. randint (min_value cfg) (max_value cfg) (tape i)) [0..<nat sz])"

text \<open>
  \<^verbatim>\<open>_parallel_simulation\<close>: the batch size is the configured one, or
  \<^verbatim>\<open>trials // num_processes\<close> when none is configured; every batch is generated in a process of its own, batch
  \<open>j\<close> from the tape \<open>tapes j\<close>; the pool needs at least one worker; the batches come
  back in the order of submission and are flattened.
\<close>

definition effective_batch_size :: "SimulationConfig \<Rightarrow> error + int" where
  "effective_batch_size cfg =
     py_or (batch_size cfg) (floordiv (trials cfg) (num_processes cfg))"

definition parallel_simulation ::
  "SimulationConfig \<Rightarrow> (nat \<Rightarrow> nat \<Rightarrow> nat) \<Rightarrow> error + int list" where
  "parallel_simulation cfg tapes =
     (case effective_batch_size cfg of
        Inl e \<Rightarrow> Inl e
      | Inr bs \<Rightarrow>
          (case floordiv (trials cfg) bs of
             Inl e \<Rightarrow> Inl e
           | Inr nb \<Rightarrow>
               let batches = replicate (nat nb) bs in
               if num_processes cfg \<le> 0 then Inl ValueError
               else
                 (case collect (map (\<lambda>(j, b). generate_batch cfg b (tapes j))
                                     (enumerate 0 batches)) of
                    Inl e \<Rightarrow> Inl e
                  | Inr rs \<Rightarrow> Inr (concat rs))))"

text \<open>The first statement of \<^verbatim>\<open>run\<close>: which path generates the samples.\<close>

definition run_samples :: "SimulationConfig \<Rightarrow> (nat \<Rightarrow> nat \<Rightarrow> nat) \<Rightarrow> error + int list" where
  "run_samples cfg tapes =
     (if parallel cfg \<and> 10000 \<le> trials cfg then parallel_simulation cfg tapes
      else generate_batch cfg (trials cfg) (tapes 0))"

definition calculate_skewness :: "float64 list \<Rightarrow> float64" where
  "calculate_skewness data =
     np_mean (map (\<lambda>x. fpow (fdiv (fsub x (np_mean data)) (np_std data)) 3) data)"

definition calculate_kurtosis :: "float64 list \<Rightarrow> float64" where
  "calculate_kurtosis data =
     fsub (np_mean (map (\<lambda>x. fpow (fdiv (fsub x (np_mean data)) (np_std data)) 4) data))
          (Finite 3)"

text \<open>
  The statistics dictionary of \<^verbatim>\<open>run\<close>, its entries evaluated in order, for samples
  that fit 64-bit integers. For other samples \<^verbatim>\<open>np.array\<close> holds Python objects and
  numpy computes with Python's own arithmetic, which can raise (a constant buffer
  divides by zero in the skewness): that computation is not modelled, its outcome is the
  parameter \<open>object_statistics\<close>.
\<close>

definition calculate_statistics ::
  "(int list \<Rightarrow> error + statistics) \<Rightarrow> int list \<Rightarrow> error + statistics" where
  "calculate_statistics object_statistics samples =
     (if list_all int64 samples then
        (let np_results = np_array samples in
         case np_min np_results of
           Inl e \<Rightarrow> Inl e
         | Inr mn \<Rightarrow>
             (case np_max np_results of
                Inl e \<Rightarrow> Inl e
              | Inr mx \<Rightarrow>
                  Inr \<lparr>mean = np_mean np_results,
                       median = np_median samples,
                       std_dev = np_std np_results,
                       min_stat = mn,
                       max_stat = mx,
                       variance = np_var np_results,
                       skewness = calculate_skewness np_results,
                       kurtosis = calculate_kurtosis np_results\<rparr>))
      else object_statistics samples)"

definition run ::
  "(int list \<Rightarrow> error + statistics) \<Rightarrow> SimulationConfig \<Rightarrow> (nat \<Rightarrow> nat \<Rightarrow> nat)
     \<Rightarrow> error + SimulationResults" where
  "run object_statistics cfg tapes =
     (case run_samples cfg tapes of
        Inl e \<Rightarrow> Inl e
      | Inr rs \<Rightarrow>
          (case calculate_statistics object_statistics rs of
             Inl e \<Rightarrow> Inl e
           | Inr st \<Rightarrow> Inr \<lparr>raw_data = rs, stats = st, config = cfg\<rparr>))"

section \<open>The stopping rule of the sequential strategy, as the specification words it\<close>




section \<open>Properties of the rounding\<close>

subsection \<open>Rounding to an integer\<close>

lemma rne_of_int [simp]: "rne (of_int k) = k"
  by (simp add: rne_def)

lemma rne_floor: "\<lfloor>m\<rfloor> \<le> rne m \<and> rne m \<le> \<lfloor>m\<rfloor> + 1"
  by (simp add: rne_def Let_def)

lemma rne_ge: "of_int k \<le> m \<Longrightarrow> k \<le> rne m"
proof -
  assume "of_int k \<le> m"
  then have "k \<le> \<lfloor>m\<rfloor>" by (simp add: le_floor_iff)
  with rne_floor[of m] show ?thesis by linarith
qed

lemma rne_le: "m \<le> of_int k \<Longrightarrow> rne m \<le> k"
proof (cases "m = of_int \<lfloor>m\<rfloor>")
  case True
  assume "m \<le> of_int k"
  then have "\<lfloor>m\<rfloor> \<le> k" by (simp add: floor_le_iff)
  moreover from True have "rne m = \<lfloor>m\<rfloor>" by (metis rne_of_int)
  ultimately show ?thesis by simp
next
  case False
  assume "m \<le> of_int k"
  moreover have "of_int \<lfloor>m\<rfloor> < m" by (metis False of_int_floor_le order_less_le)
  ultimately have "of_int \<lfloor>m\<rfloor> < (of_int k :: real)" by linarith
  then have "\<lfloor>m\<rfloor> + 1 \<le> k" by simp
  with rne_floor[of m] show ?thesis by linarith
qed

lemma rne_minus: "rne (- m) = - rne m"
proof (cases "m = of_int \<lfloor>m\<rfloor>")
  case True
  then obtain k where "m = of_int k" ..
  then have "- m = of_int (- k)" by simp
  then have "rne (- m) = - k" by (simp only: rne_of_int)
  with \<open>m = of_int k\<close> show ?thesis by simp
next
  case False
  then have fl: "\<lfloor>- m\<rfloor> = - \<lfloor>m\<rfloor> - 1"
    by (metis ceiling_altdef ceiling_def minus_diff_eq minus_minus uminus_add_conv_diff)
  show ?thesis
    unfolding rne_def Let_def fl by (auto simp: field_simps)
qed

subsection \<open>The binary exponent\<close>

lemma exponent_bounds:
  assumes "0 < x"
  shows "2 powr of_int (exponent x) \<le> x \<and> x < 2 powr of_int (exponent x + 1)"
proof (cases "1 \<le> x")
  case True
  let ?b = "bitlen \<lfloor>x\<rfloor>"
  from True have pos: "0 < \<lfloor>x\<rfloor>" by simp
  from bitlen_bounds[OF pos]
  have lo: "2 ^ nat (?b - 1) \<le> \<lfloor>x\<rfloor>" and hi: "\<lfloor>x\<rfloor> < 2 ^ nat ?b" by simp_all
  have b1: "1 \<le> ?b" using pos bitlen_eq_zero_iff[of "\<lfloor>x\<rfloor>"] bitlen_nonneg[of "\<lfloor>x\<rfloor>"] by linarith
  have e: "exponent x = ?b - 1" using True by (simp add: exponent_def)
  have "(2::real) powr of_int (?b - 1) = 2 ^ nat (?b - 1)"
    using b1 by (simp add: powr_realpow[symmetric])
  moreover have "(2::real) ^ nat (?b - 1) \<le> of_int \<lfloor>x\<rfloor>"
    using lo by (metis of_int_le_iff of_int_numeral of_int_power)
  moreover have "of_int \<lfloor>x\<rfloor> \<le> x" by simp
  ultimately have A: "2 powr of_int (exponent x) \<le> x" unfolding e by linarith
  have pw: "(2::real) powr of_int (exponent x + 1) = 2 ^ nat ?b"
    unfolding e using b1 by (simp add: powr_realpow[symmetric])
  have "\<lfloor>x\<rfloor> + 1 \<le> 2 ^ nat ?b" using hi by simp
  then have "of_int (\<lfloor>x\<rfloor> + 1) \<le> (2::real) ^ nat ?b"
    by (metis of_int_le_iff of_int_numeral of_int_power)
  then have "real_of_int \<lfloor>x\<rfloor> + 1 \<le> 2 ^ nat ?b" by simp
  moreover have "x < real_of_int \<lfloor>x\<rfloor> + 1" by linarith
  ultimately have B: "x < 2 powr of_int (exponent x + 1)" unfolding pw by linarith
  from A B show ?thesis ..
next
  case False
  let ?y = "1 / x"
  let ?k = "\<lceil>?y\<rceil> - 1"
  let ?b = "bitlen ?k"
  from False assms have y1: "1 < ?y" by simp
  then have pos: "0 < ?k" by (simp add: less_ceiling_iff)
  from bitlen_bounds[OF pos]
  have lo: "2 ^ nat (?b - 1) \<le> ?k" and hi: "?k < 2 ^ nat ?b" by simp_all
  have b1: "1 \<le> ?b" using pos bitlen_eq_zero_iff[of ?k] bitlen_nonneg[of ?k] by linarith
  have e: "exponent x = - ?b" using False by (simp add: exponent_def)
  have ky: "of_int ?k < ?y" by linarith
  have yk: "?y \<le> of_int (?k + 1)" by simp
  have "?k + 1 \<le> 2 ^ nat ?b" using hi by simp
  then have "of_int (?k + 1) \<le> (2::real) ^ nat ?b"
    by (metis of_int_le_iff of_int_numeral of_int_power)
  with yk have yhi: "?y \<le> 2 ^ nat ?b" by linarith
  have "(2::real) ^ nat (?b - 1) \<le> of_int ?k"
    using lo by (metis of_int_le_iff of_int_numeral of_int_power)
  with ky have ylo: "2 ^ nat (?b - 1) < ?y" by linarith
  have p1: "(2::real) powr of_int (- ?b) = 1 / 2 ^ nat ?b"
    using b1 by (simp add: powr_minus powr_realpow[symmetric] divide_simps)
  have p2: "(2::real) powr of_int (- ?b + 1) = 1 / 2 ^ nat (?b - 1)"
  proof -
    have "(2::real) powr of_int (- ?b + 1) = 2 powr (- of_int (?b - 1))" by simp
    also have "\<dots> = 1 / 2 powr of_int (?b - 1)" by (simp only: powr_minus_divide)
    also have "2 powr of_int (?b - 1) = (2::real) ^ nat (?b - 1)"
      using b1 by (simp add: powr_realpow[symmetric])
    finally show ?thesis .
  qed
  have A: "2 powr of_int (exponent x) \<le> x"
    unfolding e p1 using yhi assms by (simp add: field_simps)
  have B: "x < 2 powr of_int (exponent x + 1)"
    unfolding e p2 using ylo assms by (simp add: field_simps)
  from A B show ?thesis ..
qed

lemma exponent_unique:
  assumes "0 < x" and "2 powr of_int e \<le> x" and "x < 2 powr of_int (e + 1)"
  shows "exponent x = e"
proof -
  from exponent_bounds[OF assms(1)]
  have lo: "2 powr of_int (exponent x) \<le> x" and hi: "x < 2 powr of_int (exponent x + 1)"
    by simp_all
  have "\<not> e < exponent x"
  proof
    assume "e < exponent x"
    then have "of_int (e + 1) \<le> (of_int (exponent x) :: real)" by simp
    then have "(2::real) powr of_int (e + 1) \<le> 2 powr of_int (exponent x)"
      by (simp only: powr_le_cancel_iff[of 2] one_less_numeral_iff semiring_norm)
    with lo assms(3) show False by linarith
  qed
  moreover have "\<not> exponent x < e"
  proof
    assume "exponent x < e"
    then have "of_int (exponent x + 1) \<le> (of_int e :: real)" by simp
    then have "(2::real) powr of_int (exponent x + 1) \<le> 2 powr of_int e"
      by (simp only: powr_le_cancel_iff[of 2] one_less_numeral_iff semiring_norm)
    with hi assms(2) show False by linarith
  qed
  ultimately show ?thesis by linarith
qed

subsection \<open>Rounding to 53 bits\<close>

text \<open>
  With \<open>2^e \<le> |x| < 2^(e+1)\<close> the rounded value is the rounded significand
  \<open>x / 2^(e-52)\<close> scaled back. Rounding commutes with negation and with the absolute
  value, and keeps the sign.
\<close>

lemma powr_int_pos: "0 \<le> s \<Longrightarrow> (2::real) powr of_int s = 2 ^ nat s"
  by (simp add: powr_realpow[symmetric])

lemma powr_int_neg: "s < 0 \<Longrightarrow> (2::real) powr of_int s = 1 / 2 ^ nat (- s)"
proof -
  assume "s < 0"
  have "(2::real) powr of_int s = 2 powr (- of_int (- s))" by simp
  also have "\<dots> = 1 / 2 powr of_int (- s)" by (simp only: powr_minus_divide)
  also have "2 powr of_int (- s) = (2::real) ^ nat (- s)"
    using \<open>s < 0\<close> by (simp add: powr_realpow[symmetric])
  finally show ?thesis .
qed

lemma round64_powr:
  assumes "x \<noteq> 0"
  shows "round64 x =
         of_int (rne (x / 2 powr of_int (exponent \<bar>x\<bar> - 52))) *
           2 powr of_int (exponent \<bar>x\<bar> - 52)"
proof (cases "0 \<le> exponent \<bar>x\<bar> - 52")
  case True
  show ?thesis
    unfolding powr_int_pos[OF True] using assms True by (simp add: round64_def Let_def)
next
  case False
  then have neg: "exponent \<bar>x\<bar> - 52 < 0" by simp
  show ?thesis
    unfolding powr_int_neg[OF neg] using assms False by (simp add: round64_def Let_def)
qed

lemma round64_eval:
  assumes "x \<noteq> 0" and "2 powr of_int e \<le> \<bar>x\<bar>" and "\<bar>x\<bar> < 2 powr of_int (e + 1)"
  shows "round64 x = of_int (rne (x / 2 powr of_int (e - 52))) * 2 powr of_int (e - 52)"
proof -
  have "0 < \<bar>x\<bar>" using assms(1) by simp
  from exponent_unique[OF this assms(2,3)] round64_powr[OF assms(1)] show ?thesis by simp
qed

lemma exponent_abs_minus: "exponent \<bar>- x\<bar> = exponent \<bar>x\<bar>"
  by simp

lemma round64_zero [simp]: "round64 0 = 0"
  by (simp add: round64_def)

lemma round64_minus: "round64 (- x) = - round64 x"
proof (cases "x = 0")
  case True
  then show ?thesis by simp
next
  case False
  then have "- x \<noteq> 0" by simp
  from round64_powr[OF this] round64_powr[OF False] show ?thesis
    by (simp add: rne_minus)
qed

lemma round64_pos:
  assumes "0 < x"
  shows "2 powr of_int (exponent x) \<le> round64 x"
proof -
  let ?e = "exponent x"
  let ?u = "(2::real) powr of_int (?e - 52)"
  have x: "x \<noteq> 0" "\<bar>x\<bar> = x" using assms by simp_all
  have u: "0 < ?u" by simp
  have split: "(2::real) powr of_int ?e = 2 ^ 52 * ?u"
  proof -
    have "(2::real) powr of_int ?e = 2 powr (52 + of_int (?e - 52))" by simp
    also have "\<dots> = 2 powr 52 * ?u" by (simp only: powr_add)
    also have "(2::real) powr 52 = 2 ^ 52"
      using powr_realpow[of 2 52] by simp
    finally show ?thesis .
  qed
  from exponent_bounds[OF assms] have "2 powr of_int ?e \<le> x" by simp
  then have "2 ^ 52 * ?u \<le> x" by (simp only: split)
  then have "of_int (2 ^ 52) \<le> x / ?u" using u by (simp add: pos_le_divide_eq)
  then have "2 ^ 52 \<le> rne (x / ?u)" by (rule rne_ge)
  then have "(2::real) ^ 52 \<le> of_int (rne (x / ?u))"
    by (metis of_int_le_iff of_int_numeral of_int_power)
  then have "2 ^ 52 * ?u \<le> of_int (rne (x / ?u)) * ?u" using u by simp
  then show ?thesis using round64_powr[OF x(1)] by (simp only: split x(2))
qed

lemma round64_pos_iff: "0 < x \<Longrightarrow> 0 < round64 x"
proof -
  assume "0 < x"
  from round64_pos[OF this] have "2 powr of_int (exponent x) \<le> round64 x" .
  moreover have "(0::real) < 2 powr of_int (exponent x)" by simp
  ultimately show ?thesis by linarith
qed

lemma round64_neg_iff: "x < 0 \<Longrightarrow> round64 x < 0"
  using round64_pos_iff[of "- x"] by (simp add: round64_minus)

lemma round64_eq_0_iff [simp]: "round64 x = 0 \<longleftrightarrow> x = 0"
proof
  assume z: "round64 x = 0"
  show "x = 0"
  proof (rule ccontr)
    assume "x \<noteq> 0"
    then consider "0 < x" | "x < 0" by linarith
    then show False
    proof cases
      case 1
      from round64_pos_iff[OF this] z show False by simp
    next
      case 2
      from round64_neg_iff[OF this] z show False by simp
    qed
  qed
qed simp

lemma round64_sgn: "(0 < round64 x) = (0 < x)" "(round64 x < 0) = (x < 0)"
  using round64_pos_iff[of x] round64_neg_iff[of x] round64_zero
  by (cases "0 < x"; cases "x < 0"; cases "x = 0"; simp)+

lemma round64_abs: "round64 \<bar>x\<bar> = \<bar>round64 x\<bar>"
  using round64_sgn[of x] by (cases "0 \<le> x") (auto simp: abs_if round64_minus not_le)

text \<open>
  An integer of at most 53 bits is a double: rounding leaves it unchanged, and the
  rounded value of \<open>x\<close> lies on the same side of it as \<open>x\<close>.
\<close>

lemma scaled_int:
  assumes "s \<le> 0"
  shows "real_of_int k / 2 powr of_int s = of_int (k * 2 ^ nat (- s))"
    and "real_of_int (k * 2 ^ nat (- s)) * 2 powr of_int s = of_int k"
proof -
  have pw: "(2::real) powr of_int s = 1 / 2 ^ nat (- s)"
  proof (cases "s = 0")
    case True
    then show ?thesis by simp
  next
    case False
    with assms have "s < 0" by simp
    then show ?thesis by (rule powr_int_neg)
  qed
  show "real_of_int k / 2 powr of_int s = of_int (k * 2 ^ nat (- s))"
    unfolding pw by simp
  show "real_of_int (k * 2 ^ nat (- s)) * 2 powr of_int s = of_int k"
    unfolding pw by simp
qed

lemma round64_ge_int_pos:
  assumes "0 < x" and "of_int a \<le> x" and "a \<le> 2 ^ 53"
  shows "of_int a \<le> round64 x"
proof (cases "exponent x - 52 \<le> 0")
  case True
  let ?s = "exponent x - 52"
  let ?u = "(2::real) powr of_int ?s"
  have u: "0 < ?u" by simp
  have x: "x \<noteq> 0" "\<bar>x\<bar> = x" using assms(1) by simp_all
  have "of_int a / ?u \<le> x / ?u" using assms(2) u by (simp add: divide_right_mono)
  then have "of_int (a * 2 ^ nat (- ?s)) \<le> x / ?u" by (simp only: scaled_int(1)[OF True])
  then have "a * 2 ^ nat (- ?s) \<le> rne (x / ?u)" by (rule rne_ge)
  then have "real_of_int (a * 2 ^ nat (- ?s)) \<le> of_int (rne (x / ?u))" by (simp only: of_int_le_iff)
  then have "of_int (a * 2 ^ nat (- ?s)) * ?u \<le> of_int (rne (x / ?u)) * ?u"
    using u by (simp only: mult_le_cancel_right_pos)
  then have "of_int a \<le> of_int (rne (x / ?u)) * ?u" by (simp only: scaled_int(2)[OF True])
  then show ?thesis using round64_powr[OF x(1)] by (simp only: x(2))
next
  case False
  then have "53 \<le> exponent x" by simp
  then have "(of_int 53 :: real) \<le> of_int (exponent x)" by (simp only: of_int_le_iff)
  then have "(2::real) powr of_int 53 \<le> 2 powr of_int (exponent x)"
    by (simp only: powr_le_cancel_iff[of 2] one_less_numeral_iff semiring_norm)
  moreover have "(2::real) powr of_int 53 = 2 ^ 53" using powr_int_pos[of 53] by simp
  moreover have "of_int a \<le> (2::real) ^ 53"
    using assms(3) by (metis of_int_le_iff of_int_numeral of_int_power)
  ultimately show ?thesis using round64_pos[OF assms(1)] by linarith
qed

lemma round64_two_53: "round64 (2 ^ 53) = 2 ^ 53"
proof -
  have "(2::real) powr of_int 53 = 2 ^ 53" using powr_int_pos[of 53] by simp
  moreover have "(2::real) powr of_int (53 + 1) = 2 ^ 54" using powr_int_pos[of 54] by simp
  moreover have "(2::real) powr of_int (53 - 52) = 2" by simp
  ultimately have "round64 (2 ^ 53) = of_int (rne (2 ^ 53 / 2)) * 2"
    using round64_eval[of "2 ^ 53" 53] by simp
  moreover have "(2::real) ^ 53 / 2 = of_int (2 ^ 52)" by simp
  ultimately show ?thesis by (simp only: rne_of_int)
qed

lemma round64_le_int_pos:
  assumes "0 < x" and "x \<le> of_int b" and "b \<le> 2 ^ 53"
  shows "round64 x \<le> of_int b"
proof (cases "exponent x - 52 \<le> 0")
  case True
  let ?s = "exponent x - 52"
  let ?u = "(2::real) powr of_int ?s"
  have u: "0 < ?u" by simp
  have x: "x \<noteq> 0" "\<bar>x\<bar> = x" using assms(1) by simp_all
  have "x / ?u \<le> of_int b / ?u" using assms(2) u by (simp add: divide_right_mono)
  then have "x / ?u \<le> of_int (b * 2 ^ nat (- ?s))" by (simp only: scaled_int(1)[OF True])
  then have "rne (x / ?u) \<le> b * 2 ^ nat (- ?s)" by (rule rne_le)
  then have "real_of_int (rne (x / ?u)) \<le> of_int (b * 2 ^ nat (- ?s))" by (simp only: of_int_le_iff)
  then have "of_int (rne (x / ?u)) * ?u \<le> of_int (b * 2 ^ nat (- ?s)) * ?u"
    using u by (simp only: mult_le_cancel_right_pos)
  then have "of_int (rne (x / ?u)) * ?u \<le> of_int b" by (simp only: scaled_int(2)[OF True])
  then show ?thesis using round64_powr[OF x(1)] by (simp only: x(2))
next
  case False
  then have "53 \<le> exponent x" by simp
  then have "(of_int 53 :: real) \<le> of_int (exponent x)" by (simp only: of_int_le_iff)
  then have "(2::real) powr of_int 53 \<le> 2 powr of_int (exponent x)"
    by (simp only: powr_le_cancel_iff[of 2] one_less_numeral_iff semiring_norm)
  moreover have "(2::real) powr of_int 53 = 2 ^ 53" using powr_int_pos[of 53] by simp
  moreover have b: "of_int b \<le> (2::real) ^ 53"
    using assms(3) by (metis of_int_le_iff of_int_numeral of_int_power)
  moreover from exponent_bounds[OF assms(1)] have "2 powr of_int (exponent x) \<le> x" by simp
  ultimately have "x = 2 ^ 53" and "of_int b = (2::real) ^ 53" using assms(2) by linarith+
  then show ?thesis using round64_two_53 by simp
qed

lemma round64_ge_int:
  assumes "of_int a \<le> x" and "\<bar>a\<bar> \<le> 2 ^ 53"
  shows "of_int a \<le> round64 x"
proof -
  consider "0 < x" | "x = 0" | "x < 0" by linarith
  then show ?thesis
  proof cases
    case 1
    from assms(2) have "a \<le> 2 ^ 53" by simp
    with round64_ge_int_pos[OF 1 assms(1)] show ?thesis .
  next
    case 2
    with assms(1) show ?thesis by simp
  next
    case 3
    then have "0 < - x" by simp
    moreover have "- x \<le> of_int (- a)" using assms(1) by simp
    moreover have "- a \<le> 2 ^ 53" using assms(2) by simp
    ultimately have "round64 (- x) \<le> of_int (- a)" by (rule round64_le_int_pos)
    then show ?thesis by (simp add: round64_minus)
  qed
qed

lemma round64_le_int:
  assumes "x \<le> of_int b" and "\<bar>b\<bar> \<le> 2 ^ 53"
  shows "round64 x \<le> of_int b"
proof -
  have "of_int (- b) \<le> - x" using assms(1) by simp
  moreover have "\<bar>- b\<bar> \<le> 2 ^ 53" using assms(2) by simp
  ultimately have "of_int (- b) \<le> round64 (- x)" by (rule round64_ge_int)
  then show ?thesis by (simp add: round64_minus)
qed

lemma round64_of_int:
  assumes "\<bar>k\<bar> \<le> 2 ^ 53"
  shows "round64 (of_int k) = of_int k"
proof (rule antisym)
  show "round64 (of_int k) \<le> of_int k" using assms by (intro round64_le_int) simp_all
  show "of_int k \<le> round64 (of_int k)" using assms by (intro round64_ge_int) simp_all
qed

lemma round64_numeral [simp]:
  "(numeral n :: int) \<le> 2 ^ 53 \<Longrightarrow> round64 (numeral n) = numeral n"
  using round64_of_int[of "numeral n"] by simp

lemma round64_neg_numeral [simp]:
  "(numeral n :: int) \<le> 2 ^ 53 \<Longrightarrow> round64 (- numeral n) = - numeral n"
  using round64_of_int[of "- numeral n"] by simp

lemma round64_one [simp]: "round64 1 = 1"
  using round64_of_int[of 1] by simp

text \<open>Rounding a given positive number, its exponent read off two bounds.\<close>

lemma round64_eval_hi:
  fixes s :: nat
  assumes "0 < x" and "2 ^ (52 + s) \<le> x" and "x < 2 ^ (53 + s)"
  shows "round64 x = of_int (rne (x / 2 ^ s)) * 2 ^ s"
proof -
  have x: "x \<noteq> 0" "\<bar>x\<bar> = x" using assms(1) by simp_all
  have p1: "(2::real) powr of_int (52 + int s) = 2 ^ (52 + s)"
    using powr_int_pos[of "52 + int s"] by (simp add: nat_add_distrib)
  have p2: "(2::real) powr of_int (52 + int s + 1) = 2 ^ (53 + s)"
    using powr_int_pos[of "53 + int s"] by (simp add: nat_add_distrib add.commute)
  have p3: "(2::real) powr of_int (52 + int s - 52) = 2 ^ s"
    using powr_int_pos[of "int s"] by simp
  from round64_eval[of x "52 + int s"] x assms(2,3) show ?thesis
    unfolding p1 p2 p3 by simp
qed

lemma round64_eval_lo:
  fixes t :: nat
  assumes "0 < x" and "2 ^ 52 \<le> x * 2 ^ t" and "x * 2 ^ t < 2 ^ 53"
  shows "round64 x = of_int (rne (x * 2 ^ t)) / 2 ^ t"
proof -
  have x: "x \<noteq> 0" "\<bar>x\<bar> = x" using assms(1) by simp_all
  have sc: "(2::real) powr of_int (- int t) = 1 / 2 ^ t"
  proof (cases "t = 0")
    case True
    then show ?thesis by simp
  next
    case False
    then have "- int t < 0" by simp
    from powr_int_neg[OF this] show ?thesis by simp
  qed
  have split: "(2::real) powr of_int (52 - int t) = 2 ^ 52 * 2 powr of_int (- int t)"
  proof -
    have "(2::real) powr of_int (52 - int t) = 2 powr (52 + of_int (- int t))" by simp
    also have "\<dots> = 2 powr 52 * 2 powr of_int (- int t)" by (simp only: powr_add)
    also have "(2::real) powr 52 = 2 ^ 52" using powr_realpow[of 2 52] by simp
    finally show ?thesis .
  qed
  have split2: "(2::real) powr of_int (52 - int t + 1) = 2 ^ 53 * 2 powr of_int (- int t)"
  proof -
    have "(2::real) powr of_int (52 - int t + 1) = 2 powr (53 + of_int (- int t))" by simp
    also have "\<dots> = 2 powr 53 * 2 powr of_int (- int t)" by (simp only: powr_add)
    also have "(2::real) powr 53 = 2 ^ 53" using powr_realpow[of 2 53] by simp
    finally show ?thesis .
  qed
  have lo: "2 powr of_int (52 - int t) \<le> \<bar>x\<bar>"
    unfolding split sc x(2) using assms(2) by (simp add: field_simps)
  have hi: "\<bar>x\<bar> < 2 powr of_int (52 - int t + 1)"
    unfolding split2 sc x(2) using assms(3) by (simp add: field_simps)
  have shift: "52 - int t - 52 = - int t" by simp
  have "round64 x = of_int (rne (x / (1 / 2 ^ t))) * (1 / 2 ^ t)"
    using round64_eval[OF x(1) lo hi] by (simp only: shift sc)
  then show ?thesis by simp
qed

section \<open>Collected calls\<close>

text \<open>When every call returns, the collection returns all the results, in order.\<close>

lemma collect_map_Inr:
  "(\<And>x. x \<in> set xs \<Longrightarrow> g x = Inr (f x)) \<Longrightarrow> collect (map g xs) = Inr (map f xs)"
  by (induction xs) auto

section \<open>Construction of the configurations\<close>

text \<open>
  C4, as the code has it. The claim: a configuration with a non-positive sample count,
  process count, batch size, convergence threshold or iteration limit is refused with a
  \<open>ConfigurationError\<close> when it is constructed. Neither configuration class checks
  its fields (the module defines no such exception): constructing a configuration returns
  the configuration holding the given values, whatever they are.
\<close>

theorem config_init_never_raises:
  "MonteCarloConfig_init ns np sd bs un sp ct mi =
     Inr \<lparr>num_samples = ns, num_processes = np, seed = sd, batch_size = bs, use_numpy = un,
          store_points = sp, convergence_threshold = ct, max_iterations = mi\<rparr> \<and>
   SimulationConfig_init mn mx tr sd' par np' bs' =
     Inr \<lparr>min_value = mn, max_value = mx, trials = tr, seed = sd', parallel = par,
          num_processes = np', batch_size = bs'\<rparr>"
  by (simp add: MonteCarloConfig_init_def SimulationConfig_init_def)

text \<open>
  C4, the claim as stated fails: configurations whose counts, threshold and limit are
  zero or negative are constructed, and no exception is raised.
\<close>

theorem invalid_config_constructed_counterexample:
  "MonteCarloConfig_init 0 0 None (Some 0) True False (Finite 0) 0 =
     Inr \<lparr>num_samples = 0, num_processes = 0, seed = None, batch_size = Some 0,
          use_numpy = True, store_points = False, convergence_threshold = Finite 0,
          max_iterations = 0\<rparr> \<and>
   SimulationConfig_init 1 100 (- 5) None True 0 (Some (- 1)) =
     Inr \<lparr>min_value = 1, max_value = 100, trials = - 5, seed = None, parallel = True,
          num_processes = 0, batch_size = Some (- 1)\<rparr>"
  by (simp add: MonteCarloConfig_init_def SimulationConfig_init_def)

section \<open>Properties of monte_carlo_simulation.py\<close>

subsection \<open>Construction with a seed\<close>

text \<open>
  Every construction with a seed raises (\<open>ValueError\<close> from numpy for a seed outside
  \<open>0 .. 2^32 - 1\<close>, \<open>NameError\<close> otherwise), and every construction without one
  returns. On the Python sampling path the same missing name ends the first pass of the
  trial's loop.
\<close>

lemma PiEstimation_init_seeded:
  "MonteCarloConfig.seed cfg = Some s \<Longrightarrow>
   PiEstimation_init cfg = Inl (if 0 \<le> s \<and> s < 2 ^ 32 then NameError else ValueError)"
  by (simp add: PiEstimation_init_def np_random_seed_def lookup_global_def module_globals_def)

lemma PiEstimation_init_unseeded:
  "MonteCarloConfig.seed cfg = None \<Longrightarrow>
   PiEstimation_init cfg = Inr \<lparr>PiEstimation.config = cfg, points = []\<rparr>"
  by (simp add: PiEstimation_init_def)

lemma run_python_trial_raises:
  "\<not> use_numpy (PiEstimation.config self) \<Longrightarrow> 0 < num_samples (PiEstimation.config self) \<Longrightarrow>
   PiEstimation_run_trial self draws = Inl NameError"
  by (simp add: PiEstimation_run_trial_def run_python_trial_def lookup_global_def
      module_globals_def)

text \<open>
  C1. The claim: with a seed set, constructing the trial succeeds and seeds its random
  source once, so that two sequential runs with the same seed and configuration give the
  same results. The module never imports \<^verbatim>\<open>random\<close>, and \<open>PiEstimation.__init__\<close>
  calls \<^verbatim>\<open>random.seed\<close> whenever a seed is set: the construction raises
  \<open>NameError\<close>, here for the first configuration of the module's own \<^verbatim>\<open>main\<close>
  (10000 samples, seed 42), and no run of a seeded trial ever starts.
\<close>

theorem PiEstimation_init_with_seed_raises:
  "PiEstimation_init
     \<lparr>num_samples = 10000, num_processes = 4, seed = Some 42, batch_size = None,
      use_numpy = True, store_points = False, convergence_threshold = Finite (1 / 10 ^ 6),
      max_iterations = 100\<rparr> = Inl NameError"
  by (simp add: PiEstimation_init_def np_random_seed_def lookup_global_def module_globals_def)

subsection \<open>The trial\<close>

text \<open>
  On the numpy path and for a positive sample count a trial returns four times the
  share of the sample points inside the unit circle, both operations rounded.
\<close>

lemma PiEstimation_trial_estimate:
  assumes "use_numpy cfg" and "0 < num_samples cfg"
  shows "run_trial (PiEstimation_simulation \<lparr>PiEstimation.config = cfg, points = ps\<rparr> tapes) k =
         Inr (Finite (round64 (round64
                (real (inside_count (map (tapes k) [0..<nat (num_samples cfg)])) /
                 real_of_int (num_samples cfg)) * 4)))"
  using assms
  by (simp add: PiEstimation_simulation_def PiEstimation_run_trial_def run_numpy_trial_def Let_def)

subsection \<open>The sequential strategy\<close>
















subsection \<open>The parallel strategy\<close>

text \<open>
  C7. A parallel run with \<open>num_processes \<ge> 1\<close> whose trials return collects exactly
  one estimate per process, whatever the sample count: the buffer has \<open>num_processes\<close>
  entries, the estimates of the calls in order, and the report counts as many iterations.
\<close>

theorem run_parallel_one_result_per_process:
  assumes "1 \<le> MonteCarloConfig.num_processes (MonteCarloAnalyzer.config self)"
    and "\<And>k. k < nat (MonteCarloConfig.num_processes (MonteCarloAnalyzer.config self)) \<Longrightarrow>
            run_trial (simulation self) k = Inr (v k)"
  shows "\<exists>self' report.
           run_parallel self = Inr (self', report) \<and>
           results self' =
             map v [0..<nat (MonteCarloConfig.num_processes (MonteCarloAnalyzer.config self))] \<and>
           int (length (results self')) =
             MonteCarloConfig.num_processes (MonteCarloAnalyzer.config self) \<and>
           num_iterations report =
             nat (MonteCarloConfig.num_processes (MonteCarloAnalyzer.config self))"
proof -
  let ?cfg = "MonteCarloAnalyzer.config self"
  let ?np = "MonteCarloConfig.num_processes ?cfg"
  let ?self' = "self\<lparr>results := map v [0..<nat ?np]\<rparr>"
  have workers: "collect (map (run_trial (simulation self)) [0..<nat ?np]) =
                 Inr (map v [0..<nat ?np])"
    by (rule collect_map_Inr) (simp add: assms(2))
  have "\<exists>bs. py_or (MonteCarloConfig.batch_size ?cfg) (floordiv (num_samples ?cfg) ?np) = Inr bs"
    using assms(1) by (simp add: py_or_def floordiv_def split: option.split)
  then obtain bs
    where bs: "py_or (MonteCarloConfig.batch_size ?cfg) (floordiv (num_samples ?cfg) ?np) = Inr bs"
    by blast
  have run: "run_parallel self = Inr (?self', analyze_results ?self')"
    using assms(1) by (simp add: run_parallel_def Let_def bs workers)
  show ?thesis
  proof (intro exI conjI)
    show "run_parallel self = Inr (?self', analyze_results ?self')" by (rule run)
    show "results ?self' = map v [0..<nat ?np]" by simp
    show "int (length (results ?self')) = ?np" using assms(1) by simp
    show "num_iterations (analyze_results ?self') = nat ?np"
      by (simp add: analyze_results_def Let_def)
  qed
qed

text \<open>
  C7 at a concrete run: four processes, \<open>PiEstimation\<close> trials of one sample point
  each, inside the circle for the first and the third process.
\<close>

theorem run_parallel_one_result_per_process_witness:
  "\<exists>self' report.
     run_parallel
       (MonteCarloAnalyzer_init
          (PiEstimation_simulation
             \<lparr>PiEstimation.config =
                \<lparr>num_samples = 1, num_processes = 4, seed = None, batch_size = None,
                 use_numpy = True, store_points = False,
                 convergence_threshold = Finite (1 / 10 ^ 6), max_iterations = 100\<rparr>,
              points = []\<rparr>
             (\<lambda>k i. if even k then (0, 0) else (1, 1)))
          \<lparr>num_samples = 1, num_processes = 4, seed = None, batch_size = None,
           use_numpy = True, store_points = False,
           convergence_threshold = Finite (1 / 10 ^ 6), max_iterations = 100\<rparr>) =
       Inr (self', report) \<and>
     results self' = [Finite 4, Finite 0, Finite 4, Finite 0] \<and>
     num_iterations report = 4"
proof -
  let ?cfg = "\<lparr>num_samples = 1, num_processes = 4, seed = None, batch_size = None,
           use_numpy = True, store_points = False,
           convergence_threshold = Finite (1 / 10 ^ 6), max_iterations = 100\<rparr>"
  let ?tapes = "\<lambda>k i::nat. if even k then (0::real, 0::real) else (1, 1)"
  let ?sim = "PiEstimation_simulation \<lparr>PiEstimation.config = ?cfg, points = []\<rparr> ?tapes"
  let ?v = "\<lambda>k. Finite (round64 (round64
                (real (inside_count (map (?tapes k) [0..<nat (num_samples ?cfg)])) /
                 real_of_int (num_samples ?cfg)) * 4))"
  let ?self = "MonteCarloAnalyzer_init ?sim ?cfg"
  have np: "MonteCarloConfig.num_processes (MonteCarloAnalyzer.config ?self) = 4"
    by (simp add: MonteCarloAnalyzer_init_def)
  have "1 \<le> MonteCarloConfig.num_processes (MonteCarloAnalyzer.config ?self)"
    unfolding np by simp
  moreover have "\<And>k. k < nat (MonteCarloConfig.num_processes (MonteCarloAnalyzer.config ?self)) \<Longrightarrow>
            run_trial (simulation ?self) k = Inr (?v k)"
    by (simp add: MonteCarloAnalyzer_init_def PiEstimation_trial_estimate)
  ultimately obtain self' report where run: "run_parallel ?self = Inr (self', report)"
    and rs: "results self' =
             map ?v [0..<nat (MonteCarloConfig.num_processes (MonteCarloAnalyzer.config ?self))]"
    and it: "num_iterations report =
             nat (MonteCarloConfig.num_processes (MonteCarloAnalyzer.config ?self))"
    using run_parallel_one_result_per_process[of ?self ?v] by blast
  have "map ?v [0..<nat 4] = [Finite 4, Finite 0, Finite 4, Finite 0]"
    by (simp add: upt_rec inside_count_def is_inside_def)
  with run rs it show ?thesis unfolding np by (intro exI conjI) simp_all
qed

subsection \<open>The error metrics\<close>

lemma fdiv_fabs: "fabs (fdiv (Finite d) (Finite b)) = fdiv (Finite \<bar>d\<bar>) (Finite \<bar>b\<bar>)"
  by (simp add: round64_abs[symmetric] abs_divide)

lemma relative_error_abs: "fabs (fdiv (fsub e r) r) = fdiv (fabs (fsub e r)) (fabs r)"
proof (cases e)
  case (Finite a)
  show ?thesis
  proof (cases r)
    case (Finite b)
    have "fsub e r = Finite (round64 (a - b))" using \<open>e = Finite a\<close> Finite by (simp add: fsub_def)
    then show ?thesis using Finite by (simp only: fdiv_fabs fabs.simps)
  qed (simp_all add: fsub_def Finite)
qed (cases r; simp add: fsub_def)+

lemma relative_error_zero_reference:
  "fabs (fdiv (fsub e (Finite 0)) (Finite 0)) =
   (if e = Finite 0 \<or> e = NaN then NaN else PosInf)"
  by (cases e) (auto simp: fsub_def)

lemma run_sequential_report:
  "run_sequential self = Inr (self', report) \<Longrightarrow> report = analyze_results self'"
  by (auto simp: run_sequential_def split: sum.splits)

lemma run_parallel_report:
  "run_parallel self = Inr (self', report) \<Longrightarrow> report = analyze_results self'"
  by (auto simp: run_parallel_def Let_def split: sum.splits if_splits)

text \<open>
  C3, as the code has it. For every completed run, sequential or parallel, the report's
  absolute error is \<open>|estimate - exact|\<close> and its relative error is the absolute
  error divided by \<open>|exact|\<close>. The division is numpy's and raises nothing: for the
  reference value \<open>0\<close> the relative error is NaN when the estimate is \<open>0\<close> (or
  NaN), and plus infinity for every other estimate. The report is a value for every
  buffer and every reference value.
\<close>

theorem completed_run_error_metrics:
  assumes "run_sequential self = Inr (self', report) \<or> run_parallel self = Inr (self', report)"
  shows "estimate report = np_mean (results self') \<and>
         exact_value report = get_exact_value (simulation self') \<and>
         absolute_error report = fabs (fsub (estimate report) (exact_value report)) \<and>
         relative_error report = fdiv (absolute_error report) (fabs (exact_value report)) \<and>
         (exact_value report = Finite 0 \<longrightarrow>
            relative_error report =
              (if estimate report = Finite 0 \<or> estimate report = NaN then NaN else PosInf))"
proof -
  let ?e = "np_mean (results self')"
  let ?r = "get_exact_value (simulation self')"
  have report: "report = analyze_results self'"
    using assms run_sequential_report run_parallel_report by blast
  have est: "estimate report = ?e" and ex: "exact_value report = ?r"
    and ab: "absolute_error report = fabs (fsub ?e ?r)"
    and rel: "relative_error report = fabs (fdiv (fsub ?e ?r) ?r)"
    by (simp_all add: report analyze_results_def Let_def)
  have zero: "relative_error report = (if ?e = Finite 0 \<or> ?e = NaN then NaN else PosInf)"
    if "?r = Finite 0"
    unfolding rel that by (rule relative_error_zero_reference)
  show ?thesis
    unfolding est ex ab using rel zero by (simp add: relative_error_abs)
qed

text \<open>
  C3 at a concrete run: two iterations with the estimates \<open>3, 5\<close> and the reference
  value \<open>0\<close>.
\<close>

theorem completed_run_error_metrics_witness:
  "\<exists>self' report.
     run_sequential
       (MonteCarloAnalyzer_init
          \<lparr>run_trial = (\<lambda>k. Inr (if k = 0 then Finite 3 else Finite 5)),
           get_exact_value = Finite 0\<rparr>
          \<lparr>num_samples = 10000, num_processes = 4, seed = None, batch_size = None,
           use_numpy = True, store_points = False, convergence_threshold = Finite (1 / 10 ^ 6),
           max_iterations = 2\<rparr>) = Inr (self', report) \<and>
     estimate report = Finite 4 \<and> exact_value report = Finite 0 \<and>
     absolute_error report = Finite 4 \<and> relative_error report = PosInf"
proof -
  let ?sim = "\<lparr>run_trial = (\<lambda>k::nat. Inr (if k = 0 then Finite 3 else Finite 5)),
           get_exact_value = Finite 0\<rparr>"
  let ?cfg = "\<lparr>num_samples = 10000, num_processes = 4, seed = None, batch_size = None,
           use_numpy = True, store_points = False, convergence_threshold = Finite (1 / 10 ^ 6),
           max_iterations = 2\<rparr>"
  let ?self' = "\<lparr>simulation = ?sim, config = ?cfg, results = [Finite 3, Finite 5],
                 convergence_history = [Finite 3, Finite 4]\<rparr>"
  have run: "run_sequential (MonteCarloAnalyzer_init ?sim ?cfg) =
             Inr (?self', analyze_results ?self')"
    by (simp add: run_sequential_def MonteCarloAnalyzer_init_def Let_def numeral_2_eq_2
        np_mean_def np_sum_def fsub_def)
  from completed_run_error_metrics[OF disjI1, OF run]
  have "estimate (analyze_results ?self') = Finite 4 \<and>
        exact_value (analyze_results ?self') = Finite 0 \<and>
        absolute_error (analyze_results ?self') = Finite 4 \<and>
        relative_error (analyze_results ?self') = PosInf"
    by (simp add: np_mean_def np_sum_def fsub_def)
  with run show ?thesis by blast
qed

text \<open>
  C3, the claim as stated fails: a completed run of one iteration with the estimate
  \<open>1\<close> and the reference value \<open>0\<close> reports the relative error plus infinity,
  not NaN.
\<close>

theorem relative_error_infinite_counterexample:
  "run_sequential
     (MonteCarloAnalyzer_init
        \<lparr>run_trial = (\<lambda>k. Inr (Finite 1)), get_exact_value = Finite 0\<rparr>
        \<lparr>num_samples = 10000, num_processes = 4, seed = None, batch_size = None,
         use_numpy = True, store_points = False, convergence_threshold = Finite (1 / 10 ^ 6),
         max_iterations = 1\<rparr>) =
   Inr (\<lparr>simulation = \<lparr>run_trial = (\<lambda>k. Inr (Finite 1)), get_exact_value = Finite 0\<rparr>,
         config = \<lparr>num_samples = 10000, num_processes = 4, seed = None, batch_size = None,
           use_numpy = True, store_points = False, convergence_threshold = Finite (1 / 10 ^ 6),
           max_iterations = 1\<rparr>,
         results = [Finite 1], convergence_history = [Finite 1]\<rparr>,
        \<lparr>estimate = Finite 1, exact_value = Finite 0, absolute_error = Finite 1,
         relative_error = PosInf, standard_deviation = Finite 0, num_iterations = 1\<rparr>)"
  by (simp add: run_sequential_def MonteCarloAnalyzer_init_def analyze_results_def Let_def
      np_mean_def np_sum_def np_std_def np_var_def fsub_def)

section \<open>Properties of random_simulation.py\<close>

subsection \<open>The parallel partition\<close>

lemma generate_batch_valid:
  assumes "min_value cfg \<le> max_value cfg"
  shows "generate_batch cfg sz tape =
         Inr (map (\<lambda>i. min_value cfg + int (tape i) mod (max_value cfg - min_value cfg + 1))
                  [0..<nat sz])"
  unfolding generate_batch_def using assms by (intro collect_map_Inr) (simp add: randint_def)

lemma map_snd_enumerate_nat: "map (\<lambda>p. nat (snd p)) (enumerate n xs) = map nat xs"
  by (induction xs arbitrary: n) simp_all

lemma length_concat_batches:
  "length (concat (map (\<lambda>(j, b). map (F j) [0..<nat b]) (enumerate 0 (replicate k c)))) = k * nat c"
proof -
  have "map length (map (\<lambda>(j, b). map (F j) [0..<nat b]) (enumerate 0 (replicate k c))) =
        map (\<lambda>p. nat (snd p)) (enumerate 0 (replicate k c))"
    by (simp add: case_prod_unfold)
  also have "\<dots> = replicate k (nat c)" by (simp only: map_snd_enumerate_nat map_replicate)
  finally show ?thesis by (simp add: length_concat sum_list_replicate)
qed

lemma parallel_simulation_valid:
  assumes "effective_batch_size cfg = Inr b" and "b \<noteq> 0"
    and "1 \<le> num_processes cfg" and "min_value cfg \<le> max_value cfg"
  shows "\<exists>samples. parallel_simulation cfg tapes = Inr samples \<and>
           length samples = nat (trials cfg div b) * nat b"
proof -
  let ?F = "\<lambda>j i. min_value cfg + int (tapes j i) mod (max_value cfg - min_value cfg + 1)"
  let ?batches = "enumerate 0 (replicate (nat (trials cfg div b)) b)"
  have "collect (map (\<lambda>(j, b). generate_batch cfg b (tapes j)) ?batches) =
        Inr (map (\<lambda>(j, b). map (?F j) [0..<nat b]) ?batches)"
    by (rule collect_map_Inr) (simp add: case_prod_unfold generate_batch_valid[OF assms(4)])
  then have "parallel_simulation cfg tapes =
        Inr (concat (map (\<lambda>(j, b). map (?F j) [0..<nat b]) ?batches))"
    using assms(1,2,3) by (simp add: parallel_simulation_def floordiv_def)
  then show ?thesis by (intro exI conjI) (assumption, rule length_concat_batches)
qed

text \<open>
  C5. A parallel run whose batch size \<open>b\<close> is positive and does not divide
  \<open>trials\<close> generates \<open>b * (trials // b)\<close> samples, fewer than \<open>trials\<close>: the
  remainder is dropped. (The run has a pool of at least one process and a non-empty range
  of values; it is the path \<^verbatim>\<open>run\<close> takes for a parallel configuration of
  at least 10000 trials.)
\<close>

theorem parallel_simulation_drops_remainder:
  assumes "effective_batch_size cfg = Inr b" and "0 < b" and "\<not> b dvd trials cfg"
    and "0 \<le> trials cfg" and "1 \<le> num_processes cfg" and "min_value cfg \<le> max_value cfg"
  shows "\<exists>samples. parallel_simulation cfg tapes = Inr samples \<and>
           int (length samples) = b * (trials cfg div b) \<and>
           int (length samples) < trials cfg \<and>
           (parallel cfg \<and> 10000 \<le> trials cfg \<longrightarrow> run_samples cfg tapes = Inr samples)"
proof -
  from assms(2) have "b \<noteq> 0" by simp
  from parallel_simulation_valid[OF assms(1) this assms(5,6), of tapes]
  obtain samples where s: "parallel_simulation cfg tapes = Inr samples"
    and len: "length samples = nat (trials cfg div b) * nat b" by blast
  have "0 \<le> trials cfg div b" using assms(2,4) by (simp add: pos_imp_zdiv_nonneg_iff)
  with len assms(2) have eq: "int (length samples) = b * (trials cfg div b)" by simp
  have "trials cfg mod b \<noteq> 0" using assms(3) by (simp add: dvd_eq_mod_eq_0)
  moreover have "0 \<le> trials cfg mod b" using assms(2) by simp
  ultimately have "0 < trials cfg mod b" by simp
  moreover have "trials cfg = b * (trials cfg div b) + trials cfg mod b" by simp
  ultimately have lt: "b * (trials cfg div b) < trials cfg" by linarith
  show ?thesis using s eq lt by (auto simp: run_samples_def)
qed

text \<open>C5 at a concrete run: 10001 trials on four processes give 10000 samples.\<close>

theorem parallel_simulation_drops_remainder_witness:
  "\<exists>samples.
     run_samples \<lparr>min_value = 1, max_value = 100, trials = 10001, seed = None, parallel = True,
                  num_processes = 4, batch_size = None\<rparr> (\<lambda>j i. 0) = Inr samples \<and>
     int (length samples) = 10000"
  using parallel_simulation_drops_remainder[of
      "\<lparr>min_value = 1, max_value = 100, trials = 10001, seed = None, parallel = True,
        num_processes = 4, batch_size = None\<rparr>" 2500 "\<lambda>j i. 0"]
  by (auto simp: effective_batch_size_def py_or_def floordiv_def)

text \<open>
  C10. Without a configured batch size and with more processes than trials, the default
  batch size \<^verbatim>\<open>trials // num_processes\<close> is \<open>0\<close> and
  \<^verbatim>\<open>_parallel_simulation\<close> raises \<open>ZeroDivisionError\<close> when it divides by it; with
  at least as many trials as processes the batch size is positive and the samples are
  returned.
\<close>

theorem parallel_simulation_zero_batch:
  assumes "batch_size cfg = None" and "0 \<le> trials cfg"
  shows "(trials cfg < num_processes cfg \<longrightarrow>
            effective_batch_size cfg = Inr 0 \<and>
            parallel_simulation cfg tapes = Inl ZeroDivisionError) \<and>
         (1 \<le> num_processes cfg \<and> num_processes cfg \<le> trials cfg \<and>
          min_value cfg \<le> max_value cfg \<longrightarrow>
            (\<exists>b samples. effective_batch_size cfg = Inr b \<and> 0 < b \<and>
               parallel_simulation cfg tapes = Inr samples))"
proof (intro conjI impI)
  assume lt: "trials cfg < num_processes cfg"
  then have "trials cfg div num_processes cfg = 0" using assms(2) by simp
  with lt assms show eb: "effective_batch_size cfg = Inr 0"
    by (auto simp: effective_batch_size_def py_or_def floordiv_def)
  then show "parallel_simulation cfg tapes = Inl ZeroDivisionError"
    by (simp add: parallel_simulation_def floordiv_def)
next
  assume a: "1 \<le> num_processes cfg \<and> num_processes cfg \<le> trials cfg \<and>
          min_value cfg \<le> max_value cfg"
  let ?b = "trials cfg div num_processes cfg"
  have pos: "0 < ?b" using a by (simp add: pos_imp_zdiv_pos_iff)
  have eb: "effective_batch_size cfg = Inr ?b"
    using a assms(1) by (auto simp: effective_batch_size_def py_or_def floordiv_def)
  from pos have "?b \<noteq> 0" by simp
  from parallel_simulation_valid[OF eb this, of tapes] a
  obtain samples where "parallel_simulation cfg tapes = Inr samples" by blast
  with eb pos show "\<exists>b samples. effective_batch_size cfg = Inr b \<and> 0 < b \<and>
               parallel_simulation cfg tapes = Inr samples" by blast
qed

text \<open>C10 at a concrete configuration: three trials on four processes.\<close>

theorem parallel_simulation_zero_batch_witness:
  "parallel_simulation \<lparr>min_value = 1, max_value = 100, trials = 3, seed = None,
     parallel = True, num_processes = 4, batch_size = None\<rparr> (\<lambda>j i. 0) =
   Inl ZeroDivisionError"
  using parallel_simulation_zero_batch[of
      "\<lparr>min_value = 1, max_value = 100, trials = 3, seed = None,
        parallel = True, num_processes = 4, batch_size = None\<rparr>" "\<lambda>j i. 0"]
  by simp

lemma randint_range:
  assumes "a \<le> b"
  shows "a \<le> a + int r mod (b - a + 1) \<and> a + int r mod (b - a + 1) \<le> b"
proof -
  have d: "0 < b - a + 1" using assms by simp
  have "0 \<le> int r mod (b - a + 1)" using d by (rule pos_mod_sign)
  moreover have "int r mod (b - a + 1) < b - a + 1" using d by (rule pos_mod_bound)
  ultimately show ?thesis by linarith
qed

lemma int64_between: "int64 a \<Longrightarrow> int64 b \<Longrightarrow> a \<le> v \<Longrightarrow> v \<le> b \<Longrightarrow> int64 v"
  by (simp add: int64_def)

lemma calculate_statistics_returns:
  "samples \<noteq> [] \<Longrightarrow> list_all int64 samples \<Longrightarrow>
   \<exists>st. calculate_statistics object_statistics samples = Inr st"
  by (cases samples) (simp_all add: calculate_statistics_def np_min_def np_max_def np_array_def Let_def)

text \<open>
  C9. With the parallel flag set and fewer than 10000 trials, \<^verbatim>\<open>run\<close> generates
  its samples with a single call of \<^verbatim>\<open>_generate_batch\<close> for \<open>trials\<close> values, as
  it does without the flag; the batch has exactly \<open>trials\<close> values, and for a positive
  number of trials and a range of values within 64-bit integers they are the raw data
  of the results \<^verbatim>\<open>run\<close> returns.
\<close>

theorem run_below_threshold_is_sequential:
  assumes "parallel cfg" and "trials cfg < 10000"
  shows "run_samples cfg tapes = generate_batch cfg (trials cfg) (tapes 0) \<and>
         run_samples cfg tapes = run_samples (cfg\<lparr>parallel := False\<rparr>) tapes \<and>
         (0 \<le> trials cfg \<and> min_value cfg \<le> max_value cfg \<longrightarrow>
            (\<exists>batch. run_samples cfg tapes = Inr batch \<and> int (length batch) = trials cfg)) \<and>
         (0 < trials cfg \<and> min_value cfg \<le> max_value cfg \<and>
          int64 (min_value cfg) \<and> int64 (max_value cfg) \<longrightarrow>
            (\<exists>res. run object_statistics cfg tapes = Inr res \<and>
               int (length (raw_data res)) = trials cfg \<and>
               Inr (raw_data res) = generate_batch cfg (trials cfg) (tapes 0)))"
proof (intro conjI impI)
  show path: "run_samples cfg tapes = generate_batch cfg (trials cfg) (tapes 0)"
    using assms(2) by (simp add: run_samples_def)
  show "run_samples cfg tapes = run_samples (cfg\<lparr>parallel := False\<rparr>) tapes"
    using assms(2) by (simp add: run_samples_def generate_batch_def)
  show "\<exists>batch. run_samples cfg tapes = Inr batch \<and> int (length batch) = trials cfg"
    if "0 \<le> trials cfg \<and> min_value cfg \<le> max_value cfg"
    using that by (simp add: path generate_batch_valid)
  show "\<exists>res. run object_statistics cfg tapes = Inr res \<and>
               int (length (raw_data res)) = trials cfg \<and>
               Inr (raw_data res) = generate_batch cfg (trials cfg) (tapes 0)"
    if a: "0 < trials cfg \<and> min_value cfg \<le> max_value cfg \<and>
          int64 (min_value cfg) \<and> int64 (max_value cfg)"
  proof -
    let ?batch = "map (\<lambda>i. min_value cfg + int (tapes 0 i) mod (max_value cfg - min_value cfg + 1))
                      [0..<nat (trials cfg)]"
    have gen: "generate_batch cfg (trials cfg) (tapes 0) = Inr ?batch"
      using a by (simp add: generate_batch_valid)
    have ne: "?batch \<noteq> []" using a by simp
    have "\<And>r. int64 (min_value cfg + int r mod (max_value cfg - min_value cfg + 1))"
      using a randint_range[of "min_value cfg" "max_value cfg"]
      by (blast intro: int64_between)
    then have "list_all int64 ?batch" by (simp add: list_all_iff)
    with ne obtain st where st: "calculate_statistics object_statistics ?batch = Inr st"
      using calculate_statistics_returns by blast
    have "run object_statistics cfg tapes = Inr \<lparr>raw_data = ?batch, stats = st, config = cfg\<rparr>"
      by (simp add: run_def path gen st)
    then show ?thesis using a gen by simp
  qed
qed

text \<open>C9 at a concrete configuration: the parallel flag and three trials.\<close>

theorem run_below_threshold_is_sequential_witness:
  "(\<exists>batch.
     run_samples \<lparr>min_value = 1, max_value = 6, trials = 3, seed = None, parallel = True,
                  num_processes = 4, batch_size = None\<rparr> (\<lambda>j i. i) = Inr batch \<and>
     int (length batch) = 3) \<and>
   (\<exists>res.
     run (\<lambda>samples. Inl ValueError)
       \<lparr>min_value = 1, max_value = 6, trials = 3, seed = None, parallel = True,
        num_processes = 4, batch_size = None\<rparr> (\<lambda>j i. i) = Inr res \<and>
     int (length (raw_data res)) = 3)"
proof -
  let ?cfg = "\<lparr>min_value = 1, max_value = 6, trials = 3, seed = None, parallel = True,
               num_processes = 4, batch_size = None\<rparr>"
  have "parallel ?cfg" and "trials ?cfg < 10000" by simp_all
  note path =
    run_below_threshold_is_sequential[OF this, of "\<lambda>j i. i" "\<lambda>samples. Inl ValueError"]
  have "0 \<le> trials ?cfg \<and> min_value ?cfg \<le> max_value ?cfg" by simp
  with path
  have a: "\<exists>batch. run_samples ?cfg (\<lambda>j i. i) = Inr batch \<and> int (length batch) = trials ?cfg"
    by blast
  have "0 < trials ?cfg \<and> min_value ?cfg \<le> max_value ?cfg \<and>
        int64 (min_value ?cfg) \<and> int64 (max_value ?cfg)"
    by (simp add: int64_def)
  with path
  have b: "\<exists>res. run (\<lambda>samples. Inl ValueError) ?cfg (\<lambda>j i. i) = Inr res \<and>
             int (length (raw_data res)) = trials ?cfg"
    by blast
  from a b show ?thesis by simp
qed

subsection \<open>The statistics\<close>

text \<open>
  Integers whose partial sums stay within 53 bits are added without rounding; the mean of
  \<open>N\<close> copies of such a value is the value, and its variance is \<open>0\<close>.
\<close>

lemma foldl_fadd_exact:
  assumes "\<And>x. x \<in> set xs \<Longrightarrow> \<bar>x\<bar> \<le> B" and "\<bar>a\<bar> + int (length xs) * B \<le> 2 ^ 53"
  shows "foldl fadd (Finite (of_int a)) (map (\<lambda>v. Finite (of_int v)) xs) =
         Finite (of_int (a + sum_list xs))"
  using assms
proof (induction xs arbitrary: a)
  case Nil
  show ?case by simp
next
  case (Cons x xs)
  have xB: "\<bar>x\<bar> \<le> B" using Cons.prems(1) by simp
  have bound: "\<bar>a\<bar> + B + int (length xs) * B \<le> 2 ^ 53"
    using Cons.prems(2) by (simp add: algebra_simps)
  have B0: "0 \<le> B" using xB by linarith
  then have "0 \<le> int (length xs) * B" by simp
  with bound xB have small: "\<bar>a + x\<bar> \<le> 2 ^ 53" by linarith
  have step: "fadd (Finite (of_int a)) (Finite (of_int x)) = Finite (of_int (a + x))"
    using round64_of_int[OF small] by simp
  have "\<bar>a + x\<bar> + int (length xs) * B \<le> 2 ^ 53" using bound xB by linarith
  with Cons.IH[of "a + x"] Cons.prems(1)
  have "foldl fadd (Finite (of_int (a + x))) (map (\<lambda>v. Finite (of_int v)) xs) =
        Finite (of_int (a + x + sum_list xs))" by simp
  then show ?case by (simp add: step add.assoc del: fadd.simps)
qed

lemma np_array_exact:
  assumes "\<And>x. x \<in> set xs \<Longrightarrow> \<bar>x\<bar> \<le> 2 ^ 53"
  shows "np_array xs = map (\<lambda>v. Finite (of_int v)) xs"
  unfolding np_array_def using assms by (simp add: round64_of_int)

lemma np_mean_exact_sum:
  assumes "\<And>x. x \<in> set xs \<Longrightarrow> \<bar>x\<bar> \<le> B" and "int (length xs) * B \<le> 2 ^ 53" and "xs \<noteq> []"
  shows "np_mean (map (\<lambda>v. Finite (of_int v)) xs) =
         Finite (round64 (of_int (sum_list xs) / real (length xs)))"
proof -
  have "foldl fadd (Finite (of_int 0)) (map (\<lambda>v. Finite (of_int v)) xs) =
        Finite (of_int (0 + sum_list xs))"
    using assms(1,2) by (intro foldl_fadd_exact) simp_all
  then show ?thesis using assms(3) by (simp add: np_mean_def np_sum_def)
qed




















text \<open>The minimum and the maximum of integers of at most 53 bits, and exact bounds of a sum.\<close>

lemma foldl_fminimum_int:
  "foldl fminimum (Finite (of_int a)) (map (\<lambda>v. Finite (of_int v)) xs) =
   Finite (of_int (foldl min a xs))"
  by (induction xs arbitrary: a) (simp_all add: fminimum_def min_def)

lemma foldl_fmaximum_int:
  "foldl fmaximum (Finite (of_int a)) (map (\<lambda>v. Finite (of_int v)) xs) =
   Finite (of_int (foldl max a xs))"
  by (induction xs arbitrary: a) (simp_all add: fmaximum_def max_def)

lemma foldl_min_mem: "foldl min a xs \<in> set (a # xs) \<and> (\<forall>x\<in>set (a # xs). foldl min a xs \<le> (x::int))"
proof (induction xs arbitrary: a)
  case Nil
  show ?case by simp
next
  case (Cons x xs)
  from Cons[of "min a x"] show ?case by (auto simp: min_def split: if_splits)
qed

lemma foldl_max_mem: "foldl max a xs \<in> set (a # xs) \<and> (\<forall>x\<in>set (a # xs). (x::int) \<le> foldl max a xs)"
proof (induction xs arbitrary: a)
  case Nil
  show ?case by simp
next
  case (Cons x xs)
  from Cons[of "max a x"] show ?case by (auto simp: max_def split: if_splits)
qed

lemma sum_list_lower: "(\<And>x. x \<in> set xs \<Longrightarrow> lo \<le> x) \<Longrightarrow> lo * int (length xs) \<le> sum_list xs"
proof (induction xs)
  case Nil
  show ?case by simp
next
  case (Cons x xs)
  have "lo \<le> x" using Cons.prems by simp
  moreover have "lo * int (length xs) \<le> sum_list xs" using Cons by simp
  ultimately show ?case by (simp add: algebra_simps)
qed

lemma sum_list_upper: "(\<And>x. x \<in> set xs \<Longrightarrow> x \<le> hi) \<Longrightarrow> sum_list xs \<le> hi * int (length xs)"
proof (induction xs)
  case Nil
  show ?case by simp
next
  case (Cons x xs)
  have "x \<le> hi" using Cons.prems by simp
  moreover have "sum_list xs \<le> hi * int (length xs)" using Cons by simp
  ultimately show ?case by (simp add: algebra_simps)
qed

text \<open>
  C8, as the code has it. For a non-empty buffer of \<open>N\<close> integers of magnitude at most
  \<open>B\<close> with \<open>N * B \<le> 2^53\<close> (the sum is exact, and only the division is rounded)
  the mean of the statistics of \<^verbatim>\<open>run\<close> lies between the minimum and the maximum.
\<close>

theorem mean_within_min_max:
  assumes "samples \<noteq> []" and "\<forall>x\<in>set samples. \<bar>x\<bar> \<le> B"
    and "int (length samples) * B \<le> 2 ^ 53"
  shows "\<exists>st. calculate_statistics object_statistics samples = Inr st \<and>
           fle (min_stat st) (mean st) \<and> fle (mean st) (max_stat st)"
proof -
  obtain a rest where sm: "samples = a # rest" using assms(1) by (cases samples) auto
  let ?N = "length samples"
  let ?S = "sum_list samples"
  let ?lo = "foldl min a rest"
  let ?hi = "foldl max a rest"
  have N: "0 < ?N" using assms(1) by simp
  have B0: "0 \<le> B" using assms(2) sm by force
  have B53: "B \<le> 2 ^ 53"
  proof -
    have "1 \<le> int ?N" using N by linarith
    then have "1 * B \<le> int ?N * B" using B0 by (rule mult_right_mono)
    with assms(3) show ?thesis by simp
  qed
  have small: "\<And>x. x \<in> set samples \<Longrightarrow> \<bar>x\<bar> \<le> 2 ^ 53" using assms(2) B53 by fastforce
  have ok: "list_all int64 samples"
    unfolding list_all_iff int64_def using small by fastforce
  have arr: "np_array samples = map (\<lambda>v. Finite (of_int v)) samples"
    using small by (rule np_array_exact)
  have mean: "np_mean (map (\<lambda>v. Finite (of_int v)) samples) =
              Finite (round64 (of_int ?S / real ?N))"
    using assms(2,3,1) by (intro np_mean_exact_sum[where B = B]) simp_all
  have mn: "np_min (map (\<lambda>v. Finite (of_int v)) samples) = Inr (Finite (of_int ?lo))"
    by (simp add: sm np_min_def foldl_fminimum_int)
  have mx: "np_max (map (\<lambda>v. Finite (of_int v)) samples) = Inr (Finite (of_int ?hi))"
    by (simp add: sm np_max_def foldl_fmaximum_int)
  have lo_mem: "?lo \<in> set samples" and lo_le: "\<And>x. x \<in> set samples \<Longrightarrow> ?lo \<le> x"
    using foldl_min_mem[of a rest] sm by auto
  have hi_mem: "?hi \<in> set samples" and hi_ge: "\<And>x. x \<in> set samples \<Longrightarrow> x \<le> ?hi"
    using foldl_max_mem[of a rest] sm by auto
  have Nr: "0 < real ?N" using N by simp
  have "?lo * int ?N \<le> ?S" using lo_le by (rule sum_list_lower)
  then have "real_of_int (?lo * int ?N) \<le> of_int ?S" by (simp only: of_int_le_iff)
  then have "of_int ?lo * real ?N \<le> of_int ?S" by simp
  then have "of_int ?lo \<le> of_int ?S / real ?N" using Nr by (simp only: pos_le_divide_eq)
  then have lower: "of_int ?lo \<le> round64 (of_int ?S / real ?N)"
    using small[OF lo_mem] by (rule round64_ge_int)
  have "?S \<le> ?hi * int ?N" using hi_ge by (rule sum_list_upper)
  then have "real_of_int ?S \<le> of_int (?hi * int ?N)" by (simp only: of_int_le_iff)
  then have "of_int ?S \<le> of_int ?hi * real ?N" by simp
  then have "of_int ?S / real ?N \<le> of_int ?hi" using Nr by (simp only: pos_divide_le_eq)
  then have upper: "round64 (of_int ?S / real ?N) \<le> of_int ?hi"
    using small[OF hi_mem] by (rule round64_le_int)
  show ?thesis
    using lower upper by (simp add: calculate_statistics_def ok arr mean mn mx Let_def)
qed

text \<open>C8 at the samples \<open>1, 2, 6\<close>.\<close>

theorem mean_within_min_max_witness:
  "\<exists>st. calculate_statistics (\<lambda>samples. Inl ValueError) [1, 2, 6] = Inr st \<and>
      fle (min_stat st) (mean st) \<and> fle (mean st) (max_stat st)"
  using mean_within_min_max[of "[1, 2, 6]" 6 "\<lambda>samples. Inl ValueError"] by simp

text \<open>
  The roundings in the mean of three copies of \<open>8014687441826738\<close>, and in the mean of
  three estimates of four points in five.
\<close>

lemma round_2c': "round64 16029374883653476 = 16029374883653476"
  by (subst round64_eval_hi[where s = 1]) (simp_all add: rne_def Let_def)

lemma round_3c': "round64 24044062325480214 = 24044062325480216"
  by (subst round64_eval_hi[where s = 2]) (simp_all add: rne_def Let_def)

lemma round_mean_c': "round64 (24044062325480216 / 3) = 8014687441826739"
  by (subst round64_eval_hi[where s = 0]) (simp_all add: rne_def Let_def)

lemma round_4_5: "round64 (4 / 5) = 3602879701896397 / 4503599627370496"
  by (subst round64_eval_lo[where t = 53]) (simp_all add: rne_def Let_def)

lemma round_d: "round64 (3602879701896397 / 1125899906842624) = 3602879701896397 / 1125899906842624"
  by (subst round64_eval_lo[where t = 51]) (simp_all add: rne_def Let_def)

lemma round_2d: "round64 (3602879701896397 / 562949953421312) = 3602879701896397 / 562949953421312"
  by (subst round64_eval_lo[where t = 50]) (simp_all add: rne_def Let_def)

lemma round_3d: "round64 (10808639105689191 / 1125899906842624) = 1351079888211149 / 140737488355328"
  by (subst round64_eval_lo[where t = 49]) (simp_all add: rne_def Let_def)

lemma round_mean_d: "round64 (1351079888211149 / 422212465065984) = 7205759403792795 / 2251799813685248"
  by (subst round64_eval_lo[where t = 51]) (simp_all add: rne_def Let_def)

lemma mean_ddd:
  "np_mean [Finite (3602879701896397 / 1125899906842624),
            Finite (3602879701896397 / 1125899906842624),
            Finite (3602879701896397 / 1125899906842624)] =
   Finite (7205759403792795 / 2251799813685248)"
  by (simp add: np_mean_def np_sum_def round_d round_2d round_3d round_mean_d)

lemma trial_4_of_5:
  "run_trial
     (PiEstimation_simulation
        \<lparr>PiEstimation.config =
           \<lparr>num_samples = 5, num_processes = 3, seed = None, batch_size = None,
            use_numpy = True, store_points = False,
            convergence_threshold = Finite (1 / 1000000), max_iterations = 100\<rparr>,
         points = []\<rparr>
        (\<lambda>k i. if i = 0 then (1, 1) else (0, 0))) k =
   Inr (Finite (3602879701896397 / 1125899906842624))"
proof -
  have "inside_count (map (\<lambda>i::nat. if i = 0 then (1::real, 1::real) else (0, 0)) [0..<5]) = 4"
    by (simp add: inside_count_def is_inside_def upt_rec)
  then show ?thesis
    by (simp add: PiEstimation_trial_estimate round_4_5 round_d)
qed

text \<open>
  C8, the claim as stated fails, for both kinds of buffer. For three copies of the
  integer \<open>8014687441826738\<close> the rounded mean is one above the maximum. For three
  \<open>PiEstimation\<close> estimates of four points in five inside the circle (a parallel run
  of three processes) every estimate is the double nearest to \<open>3.2\<close>, and the mean of
  the buffer is the next double above it.
\<close>

theorem mean_outside_min_max_counterexample:
  "map_sum id mean
     (calculate_statistics (\<lambda>samples. Inl ValueError)
        [8014687441826738, 8014687441826738, 8014687441826738]) =
     Inr (Finite 8014687441826739) \<and>
   map_sum id max_stat
     (calculate_statistics (\<lambda>samples. Inl ValueError)
        [8014687441826738, 8014687441826738, 8014687441826738]) =
     Inr (Finite 8014687441826738) \<and>
   \<not> fle (Finite 8014687441826739) (Finite 8014687441826738) \<and>
   map_sum id (results \<circ> fst)
     (run_parallel
        (MonteCarloAnalyzer_init
           (PiEstimation_simulation
              \<lparr>PiEstimation.config =
                 \<lparr>num_samples = 5, num_processes = 3, seed = None, batch_size = None,
                  use_numpy = True, store_points = False,
                  convergence_threshold = Finite (1 / 1000000), max_iterations = 100\<rparr>,
               points = []\<rparr>
              (\<lambda>k i. if i = 0 then (1, 1) else (0, 0)))
           \<lparr>num_samples = 5, num_processes = 3, seed = None, batch_size = None,
            use_numpy = True, store_points = False,
            convergence_threshold = Finite (1 / 1000000), max_iterations = 100\<rparr>)) =
     Inr [Finite (3602879701896397 / 1125899906842624),
          Finite (3602879701896397 / 1125899906842624),
          Finite (3602879701896397 / 1125899906842624)] \<and>
   map_sum id (estimate \<circ> snd)
     (run_parallel
        (MonteCarloAnalyzer_init
           (PiEstimation_simulation
              \<lparr>PiEstimation.config =
                 \<lparr>num_samples = 5, num_processes = 3, seed = None, batch_size = None,
                  use_numpy = True, store_points = False,
                  convergence_threshold = Finite (1 / 1000000), max_iterations = 100\<rparr>,
               points = []\<rparr>
              (\<lambda>k i. if i = 0 then (1, 1) else (0, 0)))
           \<lparr>num_samples = 5, num_processes = 3, seed = None, batch_size = None,
            use_numpy = True, store_points = False,
            convergence_threshold = Finite (1 / 1000000), max_iterations = 100\<rparr>)) =
     Inr (Finite (7205759403792795 / 2251799813685248)) \<and>
   np_max [Finite (3602879701896397 / 1125899906842624),
           Finite (3602879701896397 / 1125899906842624),
           Finite (3602879701896397 / 1125899906842624)] =
     Inr (Finite (3602879701896397 / 1125899906842624)) \<and>
   \<not> fle (Finite (7205759403792795 / 2251799813685248))
          (Finite (3602879701896397 / 1125899906842624))"
proof -
  let ?c = "8014687441826738 :: int"
  let ?d = "Finite (3602879701896397 / 1125899906842624)"
  let ?cfg = "\<lparr>num_samples = 5, num_processes = 3, seed = None, batch_size = None,
            use_numpy = True, store_points = False,
            convergence_threshold = Finite (1 / 1000000), max_iterations = 100\<rparr>"
  let ?sim = "PiEstimation_simulation \<lparr>PiEstimation.config = ?cfg, points = []\<rparr>
                (\<lambda>k i::nat. if i = 0 then (1::real, 1::real) else (0, 0))"
  have stats_mean:
    "map_sum id mean (calculate_statistics (\<lambda>samples. Inl ValueError) [?c, ?c, ?c]) =
     Inr (Finite 8014687441826739)"
    by (simp add: calculate_statistics_def int64_def np_array_def np_min_def np_max_def
        np_mean_def np_sum_def Let_def round_2c' round_3c' round_mean_c')
  have stats_max:
    "map_sum id max_stat (calculate_statistics (\<lambda>samples. Inl ValueError) [?c, ?c, ?c]) =
     Inr (Finite 8014687441826738)"
    by (simp add: calculate_statistics_def int64_def np_array_def np_min_def np_max_def
        fminimum_def fmaximum_def Let_def)
  have workers: "collect (map (run_trial ?sim) [0..<nat 3]) = Inr [?d, ?d, ?d]"
    by (simp add: upt_rec trial_4_of_5)
  have run: "run_parallel (MonteCarloAnalyzer_init ?sim ?cfg) =
             Inr ((MonteCarloAnalyzer_init ?sim ?cfg)\<lparr>results := [?d, ?d, ?d]\<rparr>,
                  analyze_results ((MonteCarloAnalyzer_init ?sim ?cfg)\<lparr>results := [?d, ?d, ?d]\<rparr>))"
    using workers
    by (simp add: run_parallel_def MonteCarloAnalyzer_init_def py_or_def floordiv_def Let_def)
  have buffer: "map_sum id (results \<circ> fst) (run_parallel (MonteCarloAnalyzer_init ?sim ?cfg)) =
                Inr [?d, ?d, ?d]"
    unfolding run by simp
  have est: "map_sum id (estimate \<circ> snd) (run_parallel (MonteCarloAnalyzer_init ?sim ?cfg)) =
             Inr (Finite (7205759403792795 / 2251799813685248))"
    unfolding run by (simp add: analyze_results_def Let_def mean_ddd)
  have mx: "np_max [?d, ?d, ?d] = Inr ?d"
    by (simp add: np_max_def fmaximum_def)
  show ?thesis
    using stats_mean stats_max buffer est mx by simp
qed

end
